theory Spec2Isabelle
  imports Main
begin

section \<open>The settings panel of views/settings.py\<close>

text \<open>
  The module defines the setting classes (\<open>BaseSetting\<close> and its three subclasses) and
  \<open>SettingsView\<close>, the view that shows one selector and the controls of the selected
  setting. Objects are mutable in the source; here every operation takes the view (which
  owns its settings) and the world outside it (the effects sent to the framework, the
  asyncio tasks, the durable store) and returns them updated, together with the exception
  that left the operation, if any. State changes made before an exception are kept, as
  in Python.
\<close>

subsection \<open>Exceptions\<close>

text \<open>
  The constructors are the classes the program raises or names and the subclasses of
  \<open>HTTPException\<close> that the framework defines. \<open>OtherException\<close> is an exception of any
  other class, given by the name of its class and the names of its base classes, so
  that a further subclass of \<open>HTTPException\<close> or of \<open>CancelledError\<close> is a value too.
\<close>

datatype exc =
    KeyError string
  | IndexError
  | TypeError string
  | NotImplementedError
  | HTTPException
  | NotFound
  | Forbidden
  | DiscordServerError
  | CancelledError
  | OtherException string "string list"

text \<open>The class of an exception followed by its base classes. An \<open>except\<close> clause that
  names a class catches the instances of the class and of all its subclasses.\<close>

fun mro :: "exc \<Rightarrow> string list" where
  "mro (KeyError _) = [''KeyError'', ''LookupError'', ''Exception'', ''BaseException'']"
| "mro IndexError = [''IndexError'', ''LookupError'', ''Exception'', ''BaseException'']"
| "mro (TypeError _) = [''TypeError'', ''Exception'', ''BaseException'']"
| "mro NotImplementedError =
     [''NotImplementedError'', ''RuntimeError'', ''Exception'', ''BaseException'']"
| "mro HTTPException =
     [''discord.HTTPException'', ''discord.DiscordException'', ''Exception'', ''BaseException'']"
| "mro NotFound =
     [''discord.NotFound'', ''discord.HTTPException'', ''discord.DiscordException'',
      ''Exception'', ''BaseException'']"
| "mro Forbidden =
     [''discord.Forbidden'', ''discord.HTTPException'', ''discord.DiscordException'',
      ''Exception'', ''BaseException'']"
| "mro DiscordServerError =
     [''discord.DiscordServerError'', ''discord.HTTPException'', ''discord.DiscordException'',
      ''Exception'', ''BaseException'']"
| "mro CancelledError = [''asyncio.CancelledError'', ''BaseException'']"
| "mro (OtherException c bases) = c # bases"

definition isinstance :: "exc \<Rightarrow> string \<Rightarrow> bool" where
  "isinstance x c = (c \<in> set (mro x))"

definition isinstance_HTTPException :: "exc \<Rightarrow> bool" where
  "isinstance_HTTPException x = isinstance x ''discord.HTTPException''"

definition isinstance_CancelledError :: "exc \<Rightarrow> bool" where
  "isinstance_CancelledError x = isinstance x ''asyncio.CancelledError''"

subsection \<open>Strings\<close>

fun str_nat :: "nat \<Rightarrow> string" where
  "str_nat n =
     (if n < 10 then [''0123456789'' ! n]
      else str_nat (n div 10) @ [''0123456789'' ! (n mod 10)])"

declare str_nat.simps [simp del]

definition str_int :: "int \<Rightarrow> string" where
  "str_int n = (if n < 0 then ''-'' @ str_nat (nat (- n)) else str_nat (nat n))"

definition str_bool_lower :: "bool \<Rightarrow> string" where
  \<comment> \<open>\<open>str(value).lower()\<close> on a bool\<close>
  "str_bool_lower b = (if b then ''true'' else ''false'')"

definition str_optional :: "string option \<Rightarrow> string" where
  \<comment> \<open>an \<open>Optional[str]\<close> inside an f-string\<close>
  "str_optional e = (case e of None \<Rightarrow> ''None'' | Some s \<Rightarrow> s)"

definition newline :: string where
  "newline = [CHR 0x0A]"

subsection \<open>What the module imports\<close>

record embed =
  title :: string
  description :: string
  footer :: "string option"

text \<open>
  The translation function \<open>t\<close> (from \<open>utils\<close>), the configured emoji of the fixtweet
  setting and the framework's \<open>set_embed_footer\<close> are not defined in this module: they
  are parameters. \<open>t\<close> takes the key and the keyword arguments.
\<close>

record env =
  t :: "string \<Rightarrow> (string \<times> string) list \<Rightarrow> string"
  fixtweet_emoji :: "string option"
  set_embed_footer :: "nat \<Rightarrow> embed \<Rightarrow> embed"

record channel =
  channel_id :: nat
  guild_id :: nat
  mention :: string
  read_messages :: bool
  send_messages :: bool
  embed_links :: bool
  manage_messages :: bool

text \<open>The permission fields are \<open>channel.permissions_for(channel.guild.me)\<close>.\<close>

subsection \<open>The setting classes\<close>

datatype setting_cls = ClickerSetting_cls | ToggleSetting_cls | FixTweetSetting_cls

text \<open>An instance carries the state its \<open>__init__\<close> creates.\<close>

datatype setting =
    ClickerSetting int
  | ToggleSetting bool
  | FixTweetSetting bool channel

fun cls_of :: "setting \<Rightarrow> setting_cls" where
  "cls_of (ClickerSetting _) = ClickerSetting_cls"
| "cls_of (ToggleSetting _) = ToggleSetting_cls"
| "cls_of (FixTweetSetting _ _) = FixTweetSetting_cls"

fun cls_name :: "setting_cls \<Rightarrow> string" where
  "cls_name ClickerSetting_cls = ''Clicker''"
| "cls_name ToggleSetting_cls = ''Toggle''"
| "cls_name FixTweetSetting_cls = ''settings.fixtweet.name''"

fun cls_id :: "setting_cls \<Rightarrow> string" where
  "cls_id ClickerSetting_cls = ''clicker''"
| "cls_id ToggleSetting_cls = ''toggle''"
| "cls_id FixTweetSetting_cls = ''fixtweet''"

fun cls_description :: "setting_cls \<Rightarrow> string" where
  "cls_description ClickerSetting_cls = ''A simple clicker game''"
| "cls_description ToggleSetting_cls = ''Toggle the setting''"
| "cls_description FixTweetSetting_cls = ''settings.fixtweet.description''"

text \<open>The two literal emoji are written as their UTF-8 bytes.\<close>

fun cls_emoji :: "env \<Rightarrow> setting_cls \<Rightarrow> string option" where
  "cls_emoji e ClickerSetting_cls = Some [CHR 0xF0, CHR 0x9F, CHR 0x91, CHR 0x86]"
| "cls_emoji e ToggleSetting_cls = Some [CHR 0xF0, CHR 0x9F, CHR 0x94, CHR 0x84]"
| "cls_emoji e FixTweetSetting_cls = fixtweet_emoji e"

definition setting_id :: "setting \<Rightarrow> string" where
  "setting_id s = cls_id (cls_of s)"

definition setting_name :: "setting \<Rightarrow> string" where
  "setting_name s = cls_name (cls_of s)"

definition setting_description :: "setting \<Rightarrow> string" where
  "setting_description s = cls_description (cls_of s)"

definition setting_emoji :: "env \<Rightarrow> setting \<Rightarrow> string option" where
  "setting_emoji e s = cls_emoji e (cls_of s)"

definition truthy :: "string option \<Rightarrow> bool" where
  \<comment> \<open>Python's truth value of an \<open>Optional[str]\<close>\<close>
  "truthy x = (case x of None \<Rightarrow> False | Some s \<Rightarrow> s \<noteq> [])"

subsection \<open>Embeds, options and controls\<close>

datatype button_style = primary | secondary | green | red

record button =
  style :: button_style
  label :: string
  custom_id :: string

record select_option =
  opt_label :: string
  opt_value :: string
  opt_description :: string
  opt_emoji :: "string option"
  opt_default :: bool

text \<open>\<open>edit_callback(item, view, f)\<close> binds the callback of an item: the \<open>action\<close> of the
  setting instance stored under an id, or the view's \<open>select_parameter\<close>.\<close>

datatype callback = Action string | SelectParameter

datatype item = Button button callback | Select "select_option list" callback

definition BaseSetting_build_embed :: "env \<Rightarrow> nat \<Rightarrow> setting \<Rightarrow> embed" where
  "BaseSetting_build_embed e b s =
     set_embed_footer e b
       \<lparr>title = (if truthy (setting_emoji e s)
                 then str_optional (setting_emoji e s) @ '' '' @ t e (setting_name s) []
                 else t e (setting_name s) []),
        description = t e (setting_description s) [],
        footer = None\<rparr>"

definition str_perms :: "env \<Rightarrow> channel \<Rightarrow> string" where
  \<comment> \<open>\<open>"\\n".join\<close> over the four permissions, in the order of the dict literal\<close>
  "str_perms e c =
     t e (''settings.fixtweet.perm.read.'' @ str_bool_lower (read_messages c)) [] @ newline @
     t e (''settings.fixtweet.perm.send.'' @ str_bool_lower (send_messages c)) [] @ newline @
     t e (''settings.fixtweet.perm.embed.'' @ str_bool_lower (embed_links c)) [] @ newline @
     t e (''settings.fixtweet.perm.manage.'' @ str_bool_lower (manage_messages c)) []"

fun build_embed :: "env \<Rightarrow> nat \<Rightarrow> setting \<Rightarrow> embed" where
  "build_embed e b (ClickerSetting counter) =
     set_embed_footer e b
       \<lparr>title = str_optional (setting_emoji e (ClickerSetting counter)) @ '' '' @
                  setting_name (ClickerSetting counter),
        description = setting_description (ClickerSetting counter) @
          (if counter > 0
           then newline @ ''**You clicked '' @ str_int counter @ '' times**''
           else ''''),
        footer = None\<rparr>"
| "build_embed e b (ToggleSetting st) = BaseSetting_build_embed e b (ToggleSetting st)"
| "build_embed e b (FixTweetSetting st c) =
     set_embed_footer e b
       \<lparr>title = str_optional (setting_emoji e (FixTweetSetting st c)) @ '' '' @
                  t e (setting_name (FixTweetSetting st c)) [],
        description =
          t e ''settings.fixtweet.content''
            [(''channel'', mention c),
             (''state'', t e (''settings.fixtweet.state.'' @ str_bool_lower st) [])]
          @ str_perms e c,
        footer = None\<rparr>"

definition build_option :: "env \<Rightarrow> setting \<Rightarrow> bool \<Rightarrow> select_option" where
  "build_option e s sel =
     \<lparr>opt_label = t e (setting_name s) [],
      opt_value = setting_id s,
      opt_description = t e (setting_description s) [],
      opt_emoji = setting_emoji e s,
      opt_default = sel\<rparr>"

fun build_action :: "env \<Rightarrow> setting \<Rightarrow> item list" where
  "build_action e (ClickerSetting counter) =
     [Button \<lparr>style = primary,
              label = setting_name (ClickerSetting counter) @ '' ('' @ str_int counter @ '')'',
              custom_id = setting_id (ClickerSetting counter)\<rparr>
        (Action (setting_id (ClickerSetting counter)))]"
| "build_action e (ToggleSetting st) =
     [Button \<lparr>style = (if st then green else red),
              label = setting_name (ToggleSetting st) @ '' '' @ (if st then ''ON'' else ''OFF''),
              custom_id = setting_id (ToggleSetting st)\<rparr>
        (Action (setting_id (ToggleSetting st)))]"
| "build_action e (FixTweetSetting st c) =
     [Button \<lparr>style = (if st then primary else secondary),
              label = t e (''settings.fixtweet.button.'' @ str_bool_lower st) [],
              custom_id = setting_id (FixTweetSetting st c)\<rparr>
        (Action (setting_id (FixTweetSetting st c)))]"

subsection \<open>cls_from_id\<close>

text \<open>\<open>BaseSetting.__subclasses__()\<close> lists the direct subclasses in the order of their
  definition; \<open>cls_from_id\<close> is the loop over such a list.\<close>

definition BaseSetting_subclasses :: "setting_cls list" where
  "BaseSetting_subclasses = [ClickerSetting_cls, ToggleSetting_cls, FixTweetSetting_cls]"

fun cls_from_id :: "setting_cls list \<Rightarrow> string \<Rightarrow> setting_cls option" where
  "cls_from_id [] i = None"
| "cls_from_id (c # cs) i = (if cls_id c = i then Some c else cls_from_id cs i)"

subsection \<open>Dictionaries and dict_from_settings\<close>

text \<open>A Python dict keeps its keys in the order of their first insertion; storing under
  a key that is present replaces the value in place.\<close>

type_synonym ('k, 'v) dict = "('k \<times> 'v) list"

definition dict_get :: "('k, 'v) dict \<Rightarrow> 'k \<Rightarrow> 'v option" where
  "dict_get d k = map_of d k"

fun dict_set :: "('k, 'v) dict \<Rightarrow> 'k \<Rightarrow> 'v \<Rightarrow> ('k, 'v) dict" where
  "dict_set [] k v = [(k, v)]"
| "dict_set ((k', v') # d) k v =
     (if k' = k then (k, v) # d else (k', v') # dict_set d k v)"

definition dict_keys :: "('k, 'v) dict \<Rightarrow> 'k list" where
  "dict_keys d = map fst d"

text \<open>An element of the iterable is a class or an instance. A class is called without
  arguments: \<open>FixTweetSetting()\<close> lacks its \<open>channel\<close> and raises \<open>TypeError\<close>.\<close>

datatype setting_arg = Cls setting_cls | Inst setting

fun arg_id :: "setting_arg \<Rightarrow> string" where
  "arg_id (Cls c) = cls_id c"
| "arg_id (Inst s) = setting_id s"

fun instantiate :: "setting_cls \<Rightarrow> exc + setting" where
  "instantiate ClickerSetting_cls = Inr (ClickerSetting 0)"
| "instantiate ToggleSetting_cls = Inr (ToggleSetting False)"
| "instantiate FixTweetSetting_cls =
     Inl (TypeError ''FixTweetSetting.__init__() missing 1 required positional argument'')"

fun arg_value :: "setting_arg \<Rightarrow> exc + setting" where
  "arg_value (Cls c) = instantiate c"
| "arg_value (Inst s) = Inr s"

fun dict_from_settings_loop ::
  "(string, setting) dict \<Rightarrow> setting_arg list \<Rightarrow> exc + (string, setting) dict" where
  "dict_from_settings_loop d [] = Inr d"
| "dict_from_settings_loop d (a # as) =
     (case arg_value a of
        Inl x \<Rightarrow> Inl x
      | Inr s \<Rightarrow> dict_from_settings_loop (dict_set d (arg_id a) s) as)"

definition dict_from_settings :: "setting_arg list \<Rightarrow> exc + (string, setting) dict" where
  "dict_from_settings as = dict_from_settings_loop [] as"

subsection \<open>__eq__\<close>

text \<open>The operands of \<open>__eq__\<close> are any objects; only their class names are read.\<close>

datatype py_object = PyStr string | PySetting setting | PyBaseSetting | PyNone | PyInt int

fun class_name :: "py_object \<Rightarrow> string" where
  "class_name (PyStr _) = ''str''"
| "class_name (PySetting (ClickerSetting _)) = ''ClickerSetting''"
| "class_name (PySetting (ToggleSetting _)) = ''ToggleSetting''"
| "class_name (PySetting (FixTweetSetting _ _)) = ''FixTweetSetting''"
| "class_name PyBaseSetting = ''BaseSetting''"
| "class_name PyNone = ''NoneType''"
| "class_name (PyInt _) = ''int''"

text \<open>
  The class body binds \<open>__eq__\<close> three times, in this order: two functions under
  \<open>@overload\<close> and the implementation. \<open>typing.overload\<close> replaces the function it
  decorates by a dummy that raises \<open>NotImplementedError\<close> when called; a later binding
  of a name in a class body replaces the earlier ones, so the method of the class is the
  last binding.
\<close>

datatype eq_binding = Overload_str | Overload_BaseSetting | Implementation

definition BaseSetting_eq_bindings :: "eq_binding list" where
  "BaseSetting_eq_bindings = [Overload_str, Overload_BaseSetting, Implementation]"

fun call_eq :: "eq_binding \<Rightarrow> py_object \<Rightarrow> py_object \<Rightarrow> exc + bool" where
  "call_eq Overload_str self other = Inl NotImplementedError"
| "call_eq Overload_BaseSetting self other = Inl NotImplementedError"
| "call_eq Implementation self other =
     Inl (TypeError (''Cannot compare '' @ class_name self @ '' with '' @ class_name other))"

definition eq_dunder :: "py_object \<Rightarrow> py_object \<Rightarrow> exc + bool" where
  "eq_dunder self other = call_eq (last BaseSetting_eq_bindings) self other"

subsection \<open>The view and the world around it\<close>

record interaction =
  interaction_id :: nat
  message :: "nat option"
  client :: nat
  interaction_channel :: channel

text \<open>\<open>children\<close> is the item list of the framework's \<open>View\<close> (\<open>clear_items\<close>,
  \<open>add_item\<close>); \<open>timeout_task\<close> is a handle into the task table of the world.\<close>

record SettingsView =
  selected :: "setting_cls option"
  view_bot :: nat
  view_channel :: channel
  embed :: "embed option"
  settings :: "(string, setting) dict"
  selected_id :: "string option"
  timeout_task :: "nat option"
  children :: "item list"

text \<open>
  The effects on the framework, in the order in which the program makes them. The
  exceptions the framework itself may raise from \<open>edit_message\<close> and \<open>send_message\<close> are
  outside the program and are not modelled; the outcomes of the two awaits inside the
  \<open>try\<close> block of \<open>_message_delete_after\<close> are inputs.
\<close>

datatype effect =
    EditMessage nat "item list" "embed option"
  | SendMessage nat "item list" "embed option" bool
  | TaskCancel nat
  | CreateTask nat nat
  | DeleteOriginalResponse nat
  | StoreUpdate nat nat bool

text \<open>A task is scheduled (its countdown is pending), or it has been asked to cancel
  (\<open>CancelledError\<close> is thrown into it when it next runs), or it is done, with the
  exception that left it, if any.\<close>

datatype task_status = Scheduled | Cancelling | Done "exc option"

text \<open>The world: the effects made so far, the table of the tasks created (a handle is
  an index into it), and the durable store of the fixtweet flag.\<close>

record world =
  effects :: "effect list"
  tasks :: "(interaction \<times> task_status) list"
  store :: "nat \<times> nat \<Rightarrow> bool"

definition is_fixtweet_enabled :: "world \<Rightarrow> nat \<Rightarrow> nat \<Rightarrow> bool" where
  \<comment> \<open>Modelled from the spec: \<open>is_fixtweet_enabled\<close> is defined in \<open>utils\<close>, not in this
      module; it reads the boolean flag of the durable store, keyed by guild and channel id.\<close>
  "is_fixtweet_enabled w g c = store w (g, c)"

definition TextChannel_update :: "channel \<Rightarrow> bool \<Rightarrow> world \<Rightarrow> world" where
  \<comment> \<open>Modelled from the spec: \<open>TextChannel\<close> is defined in \<open>utils\<close>, not in this module;
      \<open>TextChannel.find(channel.id).update({'fix_twitter': state})\<close> writes the flag of that
      channel to the durable store.\<close>
  "TextChannel_update c st w =
     w\<lparr>effects := effects w @ [StoreUpdate (guild_id c) (channel_id c) st],
       store := (store w)((guild_id c, channel_id c) := st)\<rparr>"

definition FixTweetSetting_init :: "world \<Rightarrow> channel \<Rightarrow> setting" where
  "FixTweetSetting_init w c = FixTweetSetting (is_fixtweet_enabled w (guild_id c) (channel_id c)) c"

definition SettingsView_init :: "world \<Rightarrow> interaction \<Rightarrow> channel \<Rightarrow> exc + SettingsView" where
  "SettingsView_init w i c =
     (case dict_from_settings [Inst (FixTweetSetting_init w (interaction_channel i))] of
        Inl x \<Rightarrow> Inl x
      | Inr d \<Rightarrow>
          Inr \<lparr>selected = None, view_bot = client i, view_channel = c, embed = None,
               settings = d, selected_id = None, timeout_task = None, children = []\<rparr>)"

subsection \<open>Building the view\<close>

text \<open>The options are built for the keys of the dict in their order; \<open>settings[setting_id]\<close>
  for a key of the dict is the value stored with it.\<close>

definition build_options :: "env \<Rightarrow> SettingsView \<Rightarrow> select_option list" where
  "build_options e v =
     map (\<lambda>(k, s). build_option e s (Some k = selected_id v)) (settings v)"

definition add_select :: "env \<Rightarrow> SettingsView \<Rightarrow> SettingsView" where
  \<comment> \<open>the selector, added after the controls\<close>
  "add_select e v = v\<lparr>children := children v @ [Select (build_options e v) SelectParameter]\<rparr>"

definition build_items :: "env \<Rightarrow> SettingsView \<Rightarrow> exc option \<times> SettingsView" where
  "build_items e v =
     (let v1 = v\<lparr>children := []\<rparr> in
      case selected_id v1 of
        None \<Rightarrow> (None, add_select e v1)
      | Some k \<Rightarrow>
          (case dict_get (settings v1) k of
             None \<Rightarrow> (Some (KeyError k), v1)
           | Some s \<Rightarrow> (None, add_select e (v1\<lparr>children := children v1 @ build_action e s\<rparr>))))"

definition default_embed :: "env \<Rightarrow> nat \<Rightarrow> embed" where
  "default_embed e b =
     set_embed_footer e b
       \<lparr>title = t e ''settings.title'' [],
        description = t e ''settings.description'' [],
        footer = None\<rparr>"

text \<open>\<open>build\<close> tests the truth value of \<open>selected_id\<close> (\<open>None\<close> and the empty string are
  false), where \<open>_build_items\<close> tests \<open>is not None\<close>.\<close>

definition build :: "env \<Rightarrow> SettingsView \<Rightarrow> exc option \<times> SettingsView" where
  "build e v =
     (case build_items e v of
        (Some x, v1) \<Rightarrow> (Some x, v1)
      | (None, v1) \<Rightarrow>
          (case (if truthy (selected_id v1) then selected_id v1 else None) of
             Some k \<Rightarrow>
               (case dict_get (settings v1) k of
                  None \<Rightarrow> (Some (KeyError k), v1)
                | Some s \<Rightarrow> (None, v1\<lparr>embed := Some (build_embed e (view_bot v1) s)\<rparr>))
           | None \<Rightarrow> (None, v1\<lparr>embed := Some (default_embed e (view_bot v1))\<rparr>)))"

subsection \<open>The cleanup task\<close>

text \<open>\<open>sleep_raises\<close> and \<open>delete_raises\<close> are what the two awaits raise (\<open>None\<close>: the await
  returns). The clause \<open>except (discore.HTTPException, asyncio.CancelledError)\<close> catches
  an exception that is an instance of one of the two classes.\<close>

definition caught :: "exc \<Rightarrow> bool" where
  "caught x = (isinstance_HTTPException x \<or> isinstance_CancelledError x)"

definition delete_body ::
  "interaction \<Rightarrow> exc option \<Rightarrow> exc option \<Rightarrow> world \<Rightarrow> exc option \<times> world" where
  \<comment> \<open>the body of the \<open>try\<close>: the sleep, then the delete\<close>
  "delete_body i sleep_raises delete_raises w =
     (case sleep_raises of
        Some x \<Rightarrow> (Some x, w)
      | None \<Rightarrow>
          (case delete_raises of
             Some x \<Rightarrow> (Some x, w)
           | None \<Rightarrow>
               (None, w\<lparr>effects := effects w @ [DeleteOriginalResponse (interaction_id i)]\<rparr>)))"

definition message_delete_after ::
  "interaction \<Rightarrow> exc option \<Rightarrow> exc option \<Rightarrow> world \<Rightarrow> exc option \<times> world" where
  "message_delete_after i sleep_raises delete_raises w =
     (case delete_body i sleep_raises delete_raises w of
        (Some x, w') \<Rightarrow> (if caught x then (None, w') else (Some x, w'))
      | (None, w') \<Rightarrow> (None, w'))"

definition task_cancel :: "nat \<Rightarrow> world \<Rightarrow> world" where
  "task_cancel h w =
     (let w1 = w\<lparr>effects := effects w @ [TaskCancel h]\<rparr> in
      if h < length (tasks w1) \<and> snd (tasks w1 ! h) = Scheduled
      then w1\<lparr>tasks := (tasks w1)[h := (fst (tasks w1 ! h), Cancelling)]\<rparr>
      else w1)"

definition create_task :: "interaction \<Rightarrow> world \<Rightarrow> nat \<times> world" where
  "create_task i w =
     (length (tasks w),
      w\<lparr>effects := effects w @ [CreateTask (length (tasks w)) (interaction_id i)],
        tasks := tasks w @ [(i, Scheduled)]\<rparr>)"

text \<open>The event loop runs task \<open>h\<close> to its end: a scheduled task after its delay, a
  cancelled one with \<open>CancelledError\<close> raised by the sleep.\<close>

definition task_run :: "nat \<Rightarrow> exc option \<Rightarrow> world \<Rightarrow> world" where
  "task_run h delete_raises w =
     (if h < length (tasks w)
      then (case tasks w ! h of
              (i, Scheduled) \<Rightarrow>
                (case message_delete_after i None delete_raises w of
                   (r, w') \<Rightarrow> w'\<lparr>tasks := (tasks w')[h := (i, Done r)]\<rparr>)
            | (i, Cancelling) \<Rightarrow>
                (case message_delete_after i (Some CancelledError) delete_raises w of
                   (r, w') \<Rightarrow> w'\<lparr>tasks := (tasks w')[h := (i, Done r)]\<rparr>)
            | (i, Done r) \<Rightarrow> w)
      else w)"

subsection \<open>refresh, select_parameter and the actions\<close>

definition respond :: "interaction \<Rightarrow> SettingsView \<Rightarrow> effect" where
  "respond i v =
     (if message i \<noteq> None
      then EditMessage (interaction_id i) (children v) (embed v)
      else SendMessage (interaction_id i) (children v) (embed v) True)"

definition refresh ::
  "env \<Rightarrow> interaction \<Rightarrow> SettingsView \<times> world \<Rightarrow> exc option \<times> SettingsView \<times> world" where
  "refresh e i vw =
     (case vw of (v, w) \<Rightarrow>
      (case build e v of
         (Some x, v1) \<Rightarrow> (Some x, v1, w)
       | (None, v1) \<Rightarrow>
           (let w1 = w\<lparr>effects := effects w @ [respond i v1]\<rparr>;
                w2 = (case timeout_task v1 of None \<Rightarrow> w1 | Some h \<Rightarrow> task_cancel h w1);
                (h', w3) = create_task i w2
            in (None, v1\<lparr>timeout_task := Some h'\<rparr>, w3))))"

definition select_parameter ::
  "env \<Rightarrow> interaction \<Rightarrow> string list \<Rightarrow> SettingsView \<times> world
     \<Rightarrow> exc option \<times> SettingsView \<times> world" where
  "select_parameter e i vals vw =
     (case vw of (v, w) \<Rightarrow>
      (case vals of
         [] \<Rightarrow> (Some IndexError, v, w)
       | k # _ \<Rightarrow> refresh e i (v\<lparr>selected_id := Some k\<rparr>, w)))"

text \<open>\<open>BaseSetting.action\<close> raises \<open>NotImplementedError\<close>, and \<open>BaseSetting.build_action\<close>
  builds a primary button; the three subclasses override both, so that no setting of
  the module runs them.\<close>

definition BaseSetting_build_action :: "env \<Rightarrow> setting \<Rightarrow> item list" where
  "BaseSetting_build_action e s =
     [Button \<lparr>style = primary, label = t e (setting_name s) [], custom_id = setting_id s\<rparr>
        (Action (setting_id s))]"

definition BaseSetting_action ::
  "interaction \<Rightarrow> SettingsView \<times> world \<Rightarrow> exc option \<times> SettingsView \<times> world" where
  "BaseSetting_action i vw = (Some NotImplementedError, vw)"

text \<open>What an \<open>action\<close> of a subclass does to its own instance and to the world before it
  refreshes.\<close>

fun action_mutate :: "setting \<Rightarrow> world \<Rightarrow> setting \<times> world" where
  "action_mutate (ClickerSetting counter) w = (ClickerSetting (counter + 1), w)"
| "action_mutate (ToggleSetting st) w = (ToggleSetting (\<not> st), w)"
| "action_mutate (FixTweetSetting st c) w =
     (FixTweetSetting (\<not> st) c, TextChannel_update c (\<not> st) w)"

text \<open>The callback bound to a button is the \<open>action\<close> of an instance held in the view's
  dict; \<open>k\<close> is the key of that instance. The instance is updated in place.\<close>

definition action ::
  "env \<Rightarrow> string \<Rightarrow> interaction \<Rightarrow> SettingsView \<times> world
     \<Rightarrow> exc option \<times> SettingsView \<times> world" where
  "action e k i vw =
     (case vw of (v, w) \<Rightarrow>
      (case dict_get (settings v) k of
         None \<Rightarrow> (None, v, w)
       | Some s \<Rightarrow>
           (case action_mutate s w of
              (s', w') \<Rightarrow> refresh e i (v\<lparr>settings := dict_set (settings v) k s'\<rparr>, w'))))"

subsection \<open>Runs of a view\<close>

datatype step =
    Refresh interaction
  | SelectValues interaction "string list"
  | Click string interaction
  | TaskRuns nat "exc option"

fun do_step :: "env \<Rightarrow> step \<Rightarrow> SettingsView \<times> world \<Rightarrow> SettingsView \<times> world" where
  "do_step e (Refresh i) vw = snd (refresh e i vw)"
| "do_step e (SelectValues i vals) vw = snd (select_parameter e i vals vw)"
| "do_step e (Click k i) vw = snd (action e k i vw)"
| "do_step e (TaskRuns h d) vw = (fst vw, task_run h d (snd vw))"

fun run :: "env \<Rightarrow> step list \<Rightarrow> SettingsView \<times> world \<Rightarrow> SettingsView \<times> world" where
  "run e [] vw = vw"
| "run e (x # xs) vw = run e xs (do_step e x vw)"

definition pending :: "world \<Rightarrow> nat list" where
  \<comment> \<open>the handles of the tasks whose countdown is pending\<close>
  "pending w = filter (\<lambda>h. snd (tasks w ! h) = Scheduled) [0..<length (tasks w)]"

subsection \<open>Notions used to state the properties\<close>

text \<open>The order of first occurrence: the order in which a dict comprehension inserts
  its keys.\<close>

fun first_occurrences :: "'a list \<Rightarrow> 'a list" where
  "first_occurrences [] = []"
| "first_occurrences (x # xs) = x # filter (\<lambda>y. y \<noteq> x) (first_occurrences xs)"

text \<open>Every entry of a settings dict is stored under the id of its setting.\<close>

definition key_is_id :: "(string, setting) dict \<Rightarrow> bool" where
  "key_is_id d = list_all (\<lambda>(k, s). setting_id s = k) d"

text \<open>The responses among the effects, and the cancellation of a stored handle as
  \<open>refresh\<close> makes it.\<close>

fun is_response :: "effect \<Rightarrow> bool" where
  "is_response (EditMessage _ _ _) = True"
| "is_response (SendMessage _ _ _ _) = True"
| "is_response _ = False"

definition cancel_effects :: "nat option \<Rightarrow> effect list" where
  "cancel_effects h = (case h of None \<Rightarrow> [] | Some n \<Rightarrow> [TaskCancel n])"

definition cancel_stored :: "nat option \<Rightarrow> world \<Rightarrow> world" where
  "cancel_stored h w = (case h of None \<Rightarrow> w | Some n \<Rightarrow> task_cancel n w)"

text \<open>The invariant of a view and its tasks: a scheduled task is the one whose handle the
  view stores, and a stored handle is a handle of the task table.\<close>

definition single_pending :: "SettingsView \<times> world \<Rightarrow> bool" where
  "single_pending vw =
     (case vw of (v, w) \<Rightarrow>
        (\<forall>h < length (tasks w). snd (tasks w ! h) = Scheduled \<longrightarrow> timeout_task v = Some h) \<and>
        (\<forall>h. timeout_task v = Some h \<longrightarrow> h < length (tasks w)))"

subsection \<open>Example values\<close>

definition ex_env :: env where
  "ex_env = \<lparr>t = (\<lambda>k args. k), fixtweet_emoji = Some ''X'',
             set_embed_footer = (\<lambda>b em. em\<lparr>footer := Some ''bot''\<rparr>)\<rparr>"

definition ex_channel :: channel where
  "ex_channel = \<lparr>channel_id = 5, guild_id = 3, mention = ''<#5>'', read_messages = True,
                 send_messages = True, embed_links = False, manage_messages = False\<rparr>"

definition ex_args :: "setting_arg list" where
  "ex_args = [Inst (ClickerSetting 1), Cls ToggleSetting_cls, Inst (ClickerSetting 5)]"

definition ex_dict :: "(string, setting) dict" where
  "ex_dict = [(''clicker'', ClickerSetting 5), (''toggle'', ToggleSetting False)]"

definition ex_view :: SettingsView where
  "ex_view = \<lparr>selected = None, view_bot = 1, view_channel = ex_channel, embed = None,
              settings = ex_dict, selected_id = Some ''toggle'', timeout_task = None,
              children = []\<rparr>"

definition ex_world :: world where
  "ex_world = \<lparr>effects = [], tasks = [], store = (\<lambda>_. False)\<rparr>"

definition ex_slash :: interaction where
  "ex_slash = \<lparr>interaction_id = 10, message = None, client = 1, interaction_channel = ex_channel\<rparr>"

definition ex_click :: interaction where
  "ex_click = \<lparr>interaction_id = 11, message = Some 99, client = 1, interaction_channel = ex_channel\<rparr>"

definition ex_http_subclass :: exc where
  "ex_http_subclass =
     OtherException ''GatewayTimeout''
       [''discord.HTTPException'', ''discord.DiscordException'', ''Exception'', ''BaseException'']"

definition ex_os_error :: exc where
  "ex_os_error = OtherException ''OSError'' [''Exception'', ''BaseException'']"

definition ex_init_view :: SettingsView where
  "ex_init_view = \<lparr>selected = None, view_bot = 1, view_channel = ex_channel, embed = None,
     settings = [(''fixtweet'', FixTweetSetting False ex_channel)], selected_id = None,
     timeout_task = None, children = []\<rparr>"

definition ex_steps :: "step list" where
  "ex_steps = [Refresh ex_slash, SelectValues ex_click [''fixtweet''],
               Click ''fixtweet'' ex_click, TaskRuns 0 None]"

definition ex_toggle_view :: SettingsView where
  "ex_toggle_view = ex_view\<lparr>
     children := build_action ex_env (ToggleSetting False) @
                   [Select (build_options ex_env ex_view) SelectParameter],
     embed := Some (build_embed ex_env 1 (ToggleSetting False))\<rparr>"

section \<open>Properties\<close>

subsection \<open>cls_from_id\<close>

lemma cls_from_id_None: "cls_from_id cs i = None \<longleftrightarrow> (\<forall>c \<in> set cs. cls_id c \<noteq> i)"
  by (induction cs) auto

lemma cls_from_id_Some:
  "cls_from_id cs i = Some c \<longleftrightarrow>
     (\<exists>n < length cs. cs ! n = c \<and> cls_id c = i \<and> (\<forall>m < n. cls_id (cs ! m) \<noteq> i))"
proof (induction cs)
  case Nil
  then show ?case by simp
next
  case (Cons a cs)
  show ?case
  proof (cases "cls_id a = i")
    case True
    have "(\<exists>n < length (a # cs). (a # cs) ! n = c \<and> cls_id c = i \<and> (\<forall>m < n. cls_id ((a # cs) ! m) \<noteq> i))
          \<longleftrightarrow> a = c"
    proof
      assume "\<exists>n < length (a # cs). (a # cs) ! n = c \<and> cls_id c = i \<and> (\<forall>m < n. cls_id ((a # cs) ! m) \<noteq> i)"
      then obtain n where n: "(a # cs) ! n = c" "\<forall>m < n. cls_id ((a # cs) ! m) \<noteq> i" by blast
      have "n = 0"
      proof (rule ccontr)
        assume "n \<noteq> 0"
        then have "0 < n" by simp
        with n(2) have "cls_id ((a # cs) ! 0) \<noteq> i" by blast
        with True show False by simp
      qed
      with n(1) show "a = c" by simp
    next
      assume "a = c"
      with True have "(a # cs) ! 0 = c \<and> cls_id c = i \<and> (\<forall>m < 0. cls_id ((a # cs) ! m) \<noteq> i)" by simp
      then show "\<exists>n < length (a # cs). (a # cs) ! n = c \<and> cls_id c = i \<and> (\<forall>m < n. cls_id ((a # cs) ! m) \<noteq> i)"
        by (intro exI[of _ 0]) simp
    qed
    with True show ?thesis by auto
  next
    case False
    have "(\<exists>n < length (a # cs). (a # cs) ! n = c \<and> cls_id c = i \<and> (\<forall>m < n. cls_id ((a # cs) ! m) \<noteq> i))
          \<longleftrightarrow> (\<exists>n < length cs. cs ! n = c \<and> cls_id c = i \<and> (\<forall>m < n. cls_id (cs ! m) \<noteq> i))"
      (is "?L \<longleftrightarrow> ?R")
    proof
      assume ?L
      then obtain n where n: "n < length (a # cs)" "(a # cs) ! n = c" "cls_id c = i"
        "\<forall>m < n. cls_id ((a # cs) ! m) \<noteq> i" by blast
      from n(2,3) False obtain k where k: "n = Suc k" by (cases n) auto
      have "\<forall>m < k. cls_id (cs ! m) \<noteq> i"
      proof (intro allI impI)
        fix m assume "m < k"
        then have "Suc m < n" using k by simp
        with n(4) have "cls_id ((a # cs) ! Suc m) \<noteq> i" by blast
        then show "cls_id (cs ! m) \<noteq> i" by simp
      qed
      with n k show ?R by (intro exI[of _ k]) auto
    next
      assume ?R
      then obtain n where n: "n < length cs" "cs ! n = c" "cls_id c = i"
        "\<forall>m < n. cls_id (cs ! m) \<noteq> i" by blast
      have "\<forall>m < Suc n. cls_id ((a # cs) ! m) \<noteq> i"
      proof (intro allI impI)
        fix m assume "m < Suc n"
        then show "cls_id ((a # cs) ! m) \<noteq> i" using n(4) False by (cases m) auto
      qed
      with n show ?L by (intro exI[of _ "Suc n"]) auto
    qed
    with False Cons.IH show ?thesis by simp
  qed
qed

text \<open>
  Claim C10. For every id and every enumeration of the subclasses, \<open>cls_from_id\<close> returns
  the first class of the enumeration whose \<open>id\<close> attribute equals the given id, and
  \<open>None\<close> exactly when no class of the enumeration has that id.
\<close>

theorem cls_from_id_first:
  "(cls_from_id cs i = None \<longleftrightarrow> (\<forall>c \<in> set cs. cls_id c \<noteq> i)) \<and>
   (\<forall>c. cls_from_id cs i = Some c \<longleftrightarrow>
      (\<exists>n < length cs. cs ! n = c \<and> cls_id c = i \<and> (\<forall>m < n. cls_id (cs ! m) \<noteq> i)))"
  using cls_from_id_None cls_from_id_Some by blast

theorem cls_from_id_first_witness:
  "cls_from_id BaseSetting_subclasses ''nope'' = None \<and>
   (\<exists>n < length BaseSetting_subclasses.
      BaseSetting_subclasses ! n = ToggleSetting_cls \<and> cls_id ToggleSetting_cls = ''toggle'' \<and>
      (\<forall>m < n. cls_id (BaseSetting_subclasses ! m) \<noteq> ''toggle''))"
proof -
  have a: "\<forall>c \<in> set BaseSetting_subclasses. cls_id c \<noteq> ''nope''"
    by (simp add: BaseSetting_subclasses_def)
  have b: "cls_from_id BaseSetting_subclasses ''toggle'' = Some ToggleSetting_cls"
    by (simp add: BaseSetting_subclasses_def)
  from a b cls_from_id_first [of BaseSetting_subclasses "''nope''"]
    cls_from_id_first [of BaseSetting_subclasses "''toggle''"]
  show ?thesis by blast
qed

subsection \<open>__eq__\<close>

text \<open>
  Claim C9. For every instance and every operand (a string, another setting, a direct
  instance of \<open>BaseSetting\<close>, or anything else), \<open>__eq__\<close> raises \<open>TypeError\<close> with the two
  class names in its message: the method of the class is the implementation, the last
  binding, and none of the three bindings returns a boolean.
\<close>

theorem eq_dunder_raises:
  "eq_dunder self other =
     Inl (TypeError (''Cannot compare '' @ class_name self @ '' with '' @ class_name other)) \<and>
   last BaseSetting_eq_bindings = Implementation \<and>
   (\<forall>b r. call_eq b self other \<noteq> Inr r)"
proof -
  have l: "last BaseSetting_eq_bindings = Implementation"
    by (simp add: BaseSetting_eq_bindings_def)
  have "\<And>b r. call_eq b self other \<noteq> Inr r"
  proof -
    fix b r show "call_eq b self other \<noteq> Inr r" by (cases b) simp_all
  qed
  with l show ?thesis by (simp add: eq_dunder_def)
qed

theorem eq_dunder_raises_witness:
  "eq_dunder (PySetting (ToggleSetting True)) (PyStr ''toggle'') =
     Inl (TypeError ''Cannot compare ToggleSetting with str'') \<and>
   eq_dunder PyBaseSetting (PySetting (ClickerSetting 0)) =
     Inl (TypeError ''Cannot compare BaseSetting with ClickerSetting'')"
  using eq_dunder_raises [of "PySetting (ToggleSetting True)" "PyStr ''toggle''"]
    eq_dunder_raises [of PyBaseSetting "PySetting (ClickerSetting 0)"]
  by simp

subsection \<open>dict_from_settings\<close>

lemma dict_keys_dict_set:
  "dict_keys (dict_set d k v) = (if k \<in> set (dict_keys d) then dict_keys d else dict_keys d @ [k])"
  by (induction d) (auto simp: dict_keys_def split: if_splits)

lemma distinct_dict_set: "distinct (dict_keys d) \<Longrightarrow> distinct (dict_keys (dict_set d k v))"
  by (simp add: dict_keys_dict_set)

lemma dict_get_dict_set: "dict_get (dict_set d k v) k' = (if k' = k then Some v else dict_get d k')"
  by (induction d) (auto simp: dict_get_def)

lemma set_dict_set: "set (dict_set d k v) \<subseteq> insert (k, v) (set d)"
  by (induction d) (auto split: if_splits)

lemma key_is_id_dict_set: "key_is_id d \<Longrightarrow> setting_id s = k \<Longrightarrow> key_is_id (dict_set d k s)"
  using set_dict_set[of d k s] by (auto simp: key_is_id_def list_all_iff)

lemma arg_value_id: "arg_value a = Inr s \<Longrightarrow> setting_id s = arg_id a"
proof (cases a)
  case (Cls c)
  assume "arg_value a = Inr s"
  with Cls show ?thesis by (cases c) (auto simp: setting_id_def)
next
  case (Inst s')
  assume "arg_value a = Inr s"
  with Inst show ?thesis by simp
qed

lemma loop_key_is_id:
  "dict_from_settings_loop d as = Inr d' \<Longrightarrow> key_is_id d \<Longrightarrow> key_is_id d'"
proof (induction as arbitrary: d)
  case Nil
  then show ?case by simp
next
  case (Cons a as)
  from Cons.prems(1) obtain s where s: "arg_value a = Inr s"
    and l: "dict_from_settings_loop (dict_set d (arg_id a) s) as = Inr d'"
    by (auto split: sum.splits)
  from Cons.prems(2) s have "key_is_id (dict_set d (arg_id a) s)"
    by (simp add: key_is_id_dict_set arg_value_id)
  with Cons.IH l show ?case by blast
qed

lemma loop_distinct:
  "dict_from_settings_loop d as = Inr d' \<Longrightarrow> distinct (dict_keys d) \<Longrightarrow> distinct (dict_keys d')"
proof (induction as arbitrary: d)
  case Nil
  then show ?case by simp
next
  case (Cons a as)
  from Cons.prems(1) obtain s where
    l: "dict_from_settings_loop (dict_set d (arg_id a) s) as = Inr d'"
    by (auto split: sum.splits)
  from Cons.prems(2) have "distinct (dict_keys (dict_set d (arg_id a) s))"
    by (rule distinct_dict_set)
  with Cons.IH l show ?case by blast
qed

lemma loop_keys:
  "dict_from_settings_loop d as = Inr d' \<Longrightarrow>
     dict_keys d' =
       dict_keys d @ filter (\<lambda>k. k \<notin> set (dict_keys d)) (first_occurrences (map arg_id as))"
proof (induction as arbitrary: d)
  case Nil
  then show ?case by simp
next
  case (Cons a as)
  from Cons.prems obtain s where
    l: "dict_from_settings_loop (dict_set d (arg_id a) s) as = Inr d'"
    by (auto split: sum.splits)
  let ?k = "arg_id a"
  let ?fo = "first_occurrences (map arg_id as)"
  from Cons.IH[OF l] have ih: "dict_keys d' =
      dict_keys (dict_set d ?k s) @ filter (\<lambda>k. k \<notin> set (dict_keys (dict_set d ?k s))) ?fo" .
  show ?case
  proof (cases "?k \<in> set (dict_keys d)")
    case True
    have "filter (\<lambda>k. k \<notin> set (dict_keys d)) (filter (\<lambda>y. y \<noteq> ?k) ?fo)
          = filter (\<lambda>k. k \<notin> set (dict_keys d)) ?fo"
      using True by (auto simp: filter_filter intro: filter_cong)
    with True ih show ?thesis by (simp add: dict_keys_dict_set)
  next
    case False
    have "filter (\<lambda>k. k \<notin> set (dict_keys d) \<and> k \<noteq> ?k) ?fo
          = filter (\<lambda>k. k \<notin> set (dict_keys d)) (filter (\<lambda>y. y \<noteq> ?k) ?fo)"
      by (auto simp: filter_filter intro: filter_cong)
    with False ih show ?thesis by (simp add: dict_keys_dict_set)
  qed
qed

lemma loop_values:
  "dict_from_settings_loop d as = Inr d' \<Longrightarrow> dict_get d' k = Some s \<Longrightarrow>
     dict_get d k = Some s \<or> (\<exists>a \<in> set as. arg_id a = k \<and> arg_value a = Inr s)"
proof (induction as arbitrary: d)
  case Nil
  then show ?case by simp
next
  case (Cons a as)
  from Cons.prems(1) obtain s' where s': "arg_value a = Inr s'"
    and l: "dict_from_settings_loop (dict_set d (arg_id a) s') as = Inr d'"
    by (auto split: sum.splits)
  from Cons.IH[OF l Cons.prems(2)] show ?case
    using s' by (auto simp: dict_get_dict_set split: if_splits)
qed

lemma loop_distinct_args:
  "dict_from_settings_loop d as = Inr d' \<Longrightarrow> distinct (map arg_id as) \<Longrightarrow>
     set (map arg_id as) \<inter> set (dict_keys d) = {} \<Longrightarrow>
     map (\<lambda>(k, s). (k, Inr s)) d' = map (\<lambda>(k, s). (k, Inr s)) d @ map (\<lambda>a. (arg_id a, arg_value a)) as"
proof (induction as arbitrary: d)
  case Nil
  then show ?case by simp
next
  case (Cons a as)
  from Cons.prems(1) obtain s where s: "arg_value a = Inr s"
    and l: "dict_from_settings_loop (dict_set d (arg_id a) s) as = Inr d'"
    by (auto split: sum.splits)
  from Cons.prems(3) have notin: "arg_id a \<notin> set (dict_keys d)" by auto
  have ds: "dict_set d (arg_id a) s = d @ [(arg_id a, s)]"
    using notin by (induction d) (auto simp: dict_keys_def)
  have "set (map arg_id as) \<inter> set (dict_keys (dict_set d (arg_id a) s)) = {}"
    using Cons.prems(2,3) by (auto simp: dict_keys_dict_set)
  with Cons.IH[OF l] Cons.prems(2) show ?case by (simp add: ds s)
qed

lemma first_occurrences_distinct: "distinct xs \<Longrightarrow> first_occurrences xs = xs"
  by (induction xs) (auto intro: filter_True)

lemma build_options_values:
  "key_is_id (settings v) \<Longrightarrow> map opt_value (build_options e v) = dict_keys (settings v)"
  by (auto simp: build_options_def build_option_def key_is_id_def dict_keys_def list_all_iff)

lemma setting_id_nonempty: "setting_id s \<noteq> []"
  by (cases s) (simp_all add: setting_id_def)

lemma dict_get_mem: "dict_get d k = Some s \<Longrightarrow> (k, s) \<in> set d"
  by (simp add: dict_get_def map_of_SomeD)

lemma key_is_id_get: "key_is_id d \<Longrightarrow> dict_get d k = Some s \<Longrightarrow> setting_id s = k"
  by (auto simp: key_is_id_def list_all_iff dest: dict_get_mem)

lemma key_is_id_no_empty: "key_is_id d \<Longrightarrow> dict_get d [] = None"
proof (cases "dict_get d []")
  case None
  then show ?thesis by simp
next
  case (Some s)
  assume "key_is_id d"
  from this Some have "setting_id s = []" by (rule key_is_id_get)
  then show ?thesis by (simp add: setting_id_nonempty)
qed

text \<open>
  Claim C8. When \<open>dict_from_settings\<close> returns a dict, every key \<open>k\<close> holds a setting whose
  id is \<open>k\<close>, and that setting is one of the given settings with this id; the keys are
  distinct and stand in the order in which the ids first occur in the input; when the
  ids of the input are distinct, the dict holds exactly the given settings under their
  ids, in the order given; and the selector options of a view on this dict carry the
  keys as their values, in the order of the dict.
\<close>

theorem dict_from_settings_mapping:
  assumes "dict_from_settings as = Inr d"
  shows
    "(\<forall>k s. dict_get d k = Some s \<longrightarrow>
        setting_id s = k \<and> (\<exists>a \<in> set as. arg_id a = k \<and> arg_value a = Inr s)) \<and>
     distinct (dict_keys d) \<and>
     dict_keys d = first_occurrences (map arg_id as) \<and>
     (distinct (map arg_id as) \<longrightarrow>
        map (\<lambda>(k, s). (k, Inr s)) d = map (\<lambda>a. (arg_id a, arg_value a)) as) \<and>
     (\<forall>e v. settings v = d \<longrightarrow> map opt_value (build_options e v) = dict_keys d)"
proof -
  from assms have l: "dict_from_settings_loop [] as = Inr d" by (simp add: dict_from_settings_def)
  have wf: "key_is_id d" using loop_key_is_id[OF l] by (simp add: key_is_id_def)
  have c1: "\<forall>k s. dict_get d k = Some s \<longrightarrow>
        setting_id s = k \<and> (\<exists>a \<in> set as. arg_id a = k \<and> arg_value a = Inr s)"
  proof (intro allI impI)
    fix k s assume g: "dict_get d k = Some s"
    from wf g have "setting_id s = k" by (rule key_is_id_get)
    moreover from loop_values[OF l g] have "\<exists>a \<in> set as. arg_id a = k \<and> arg_value a = Inr s"
      by (simp add: dict_get_def)
    ultimately show "setting_id s = k \<and> (\<exists>a \<in> set as. arg_id a = k \<and> arg_value a = Inr s)" ..
  qed
  have c2: "distinct (dict_keys d)" using loop_distinct[OF l] by (simp add: dict_keys_def)
  have c3: "dict_keys d = first_occurrences (map arg_id as)"
    using loop_keys[OF l] by (simp add: dict_keys_def)
  have c4: "distinct (map arg_id as) \<longrightarrow>
        map (\<lambda>(k, s). (k, Inr s)) d = map (\<lambda>a. (arg_id a, arg_value a)) as"
    using loop_distinct_args[OF l] by (simp add: dict_keys_def)
  have c5: "\<forall>e v. settings v = d \<longrightarrow> map opt_value (build_options e v) = dict_keys d"
    using wf build_options_values by blast
  show ?thesis by (intro conjI c1 c2 c3 c4 c5)
qed

theorem dict_from_settings_mapping_witness:
  "dict_from_settings ex_args = Inr ex_dict \<and>
   dict_keys ex_dict = [''clicker'', ''toggle''] \<and>
   first_occurrences (map arg_id ex_args) = [''clicker'', ''toggle''] \<and>
   dict_get ex_dict ''clicker'' = Some (ClickerSetting 5) \<and>
   map opt_value (build_options ex_env ex_view) = [''clicker'', ''toggle'']"
proof -
  have h: "dict_from_settings ex_args = Inr ex_dict"
    by (simp add: dict_from_settings_def ex_args_def ex_dict_def setting_id_def)
  have k: "dict_keys ex_dict = [''clicker'', ''toggle'']"
    by (simp add: dict_keys_def ex_dict_def)
  have g: "dict_get ex_dict ''clicker'' = Some (ClickerSetting 5)"
    by (simp add: dict_get_def ex_dict_def)
  have s: "settings ex_view = ex_dict" by (simp add: ex_view_def)
  from dict_from_settings_mapping [OF h] k s g show ?thesis by (metis h)
qed

subsection \<open>build and _build_items\<close>

lemma build_items_None:
  "selected_id v = None \<Longrightarrow>
     build_items e v = (None, v\<lparr>children := [Select (build_options e v) SelectParameter]\<rparr>)"
  by (simp add: build_items_def add_select_def build_options_def)

lemma build_items_Some:
  "selected_id v = Some k \<Longrightarrow> dict_get (settings v) k = Some s \<Longrightarrow>
     build_items e v =
       (None, v\<lparr>children := build_action e s @ [Select (build_options e v) SelectParameter]\<rparr>)"
  by (simp add: build_items_def add_select_def build_options_def)

lemma build_items_KeyError:
  "selected_id v = Some k \<Longrightarrow> dict_get (settings v) k = None \<Longrightarrow>
     build_items e v = (Some (KeyError k), v\<lparr>children := []\<rparr>)"
  by (simp add: build_items_def)

lemma build_None:
  "selected_id v = None \<Longrightarrow>
     build e v =
       (None, v\<lparr>children := [Select (build_options e v) SelectParameter],
                embed := Some (default_embed e (view_bot v))\<rparr>)"
  by (simp add: build_def build_items_None truthy_def)

lemma build_Some:
  "selected_id v = Some k \<Longrightarrow> dict_get (settings v) k = Some s \<Longrightarrow> k \<noteq> [] \<Longrightarrow>
     build e v =
       (None, v\<lparr>children := build_action e s @ [Select (build_options e v) SelectParameter],
                embed := Some (build_embed e (view_bot v) s)\<rparr>)"
  by (simp add: build_def build_items_Some truthy_def)

lemma build_empty_key:
  "selected_id v = Some [] \<Longrightarrow> dict_get (settings v) [] = Some s \<Longrightarrow>
     build e v =
       (None, v\<lparr>children := build_action e s @ [Select (build_options e v) SelectParameter],
                embed := Some (default_embed e (view_bot v))\<rparr>)"
  by (simp add: build_def build_items_Some truthy_def)

lemma build_KeyError:
  "selected_id v = Some k \<Longrightarrow> dict_get (settings v) k = None \<Longrightarrow>
     build e v = (Some (KeyError k), v\<lparr>children := []\<rparr>)"
  by (simp add: build_def build_items_KeyError)



lemma custom_id_build_action:
  "Button b cb \<in> set (build_action e s) \<Longrightarrow> custom_id b = setting_id s \<and> cb = Action (setting_id s)"
  by (cases s) auto

lemma length_build_options: "length (build_options e v) = length (settings v)"
  by (simp add: build_options_def)

lemma nth_build_options:
  "n < length (settings v) \<Longrightarrow>
     build_options e v ! n =
       build_option e (snd (settings v ! n)) (Some (fst (settings v ! n)) = selected_id v)"
  by (simp add: build_options_def case_prod_beta)

lemma opt_value_nth:
  "key_is_id (settings v) \<Longrightarrow> n < length (settings v) \<Longrightarrow>
     opt_value (build_options e v ! n) = dict_keys (settings v) ! n"
proof -
  assume wf: "key_is_id (settings v)" and n: "n < length (settings v)"
  then have "settings v ! n \<in> set (settings v)" by simp
  with wf have "setting_id (snd (settings v ! n)) = fst (settings v ! n)"
    by (auto simp: key_is_id_def list_all_iff)
  with n show ?thesis by (simp add: nth_build_options build_option_def dict_keys_def)
qed

lemma opt_default_nth:
  "n < length (settings v) \<Longrightarrow>
     opt_default (build_options e v ! n) \<longleftrightarrow> selected_id v = Some (dict_keys (settings v) ! n)"
  by (auto simp: nth_build_options build_option_def dict_keys_def)

lemma default_unique:
  assumes "distinct (dict_keys (settings v))"
    and "n < length (settings v)" "m < length (settings v)"
    and "opt_default (build_options e v ! n)" "opt_default (build_options e v ! m)"
  shows "n = m"
proof -
  from assms(2,4) have "selected_id v = Some (dict_keys (settings v) ! n)" by (simp add: opt_default_nth)
  moreover from assms(3,5) have "selected_id v = Some (dict_keys (settings v) ! m)" by (simp add: opt_default_nth)
  ultimately have "dict_keys (settings v) ! n = dict_keys (settings v) ! m" by simp
  moreover have "n < length (dict_keys (settings v))" "m < length (dict_keys (settings v))"
    using assms(2,3) by (simp_all add: dict_keys_def)
  ultimately show ?thesis using assms(1) by (simp add: nth_eq_iff_index_eq)
qed

lemma default_exists:
  assumes "selected_id v = Some k" "dict_get (settings v) k = Some s"
  shows "\<exists>n < length (settings v). opt_default (build_options e v ! n)"
proof -
  from assms(2) have "k \<in> set (dict_keys (settings v))"
    by (auto simp: dict_keys_def dest: dict_get_mem intro: rev_image_eqI)
  then obtain n where "n < length (dict_keys (settings v))" "dict_keys (settings v) ! n = k"
    by (auto simp: in_set_conv_nth)
  with assms(1) show ?thesis by (auto simp: opt_default_nth dict_keys_def)
qed

text \<open>
  Claim C7. After \<open>_build_items\<close> has returned on a view whose settings are stored under
  their ids, the children are the action controls of the selected setting (none when
  nothing is selected) followed by the selector; every button among them belongs to the
  selected id; the selector has exactly one option per setting, in the order of the dict,
  with the id of the setting as its value; an option is marked as default exactly when
  its key is the selected id, so that at most one option is marked, and one is when an
  id is selected.
\<close>

theorem build_items_selected_only:
  assumes "key_is_id (settings v)" and "distinct (dict_keys (settings v))"
    and "build_items e v = (None, v')"
  shows
    "(selected_id v = None \<longrightarrow>
        children v' = [Select (build_options e v) SelectParameter]) \<and>
     (\<forall>k s. selected_id v = Some k \<and> dict_get (settings v) k = Some s \<longrightarrow>
        children v' = build_action e s @ [Select (build_options e v) SelectParameter]) \<and>
     (\<forall>b cb. Button b cb \<in> set (children v') \<longrightarrow>
        selected_id v = Some (custom_id b) \<and> cb = Action (custom_id b)) \<and>
     length (build_options e v) = length (settings v) \<and>
     (\<forall>n < length (settings v).
        opt_value (build_options e v ! n) = dict_keys (settings v) ! n \<and>
        opt_value (build_options e v ! n) = setting_id (snd (settings v ! n)) \<and>
        (opt_default (build_options e v ! n) \<longleftrightarrow>
           selected_id v = Some (dict_keys (settings v) ! n))) \<and>
     (\<forall>n < length (settings v). \<forall>m < length (settings v).
        opt_default (build_options e v ! n) \<and> opt_default (build_options e v ! m) \<longrightarrow> n = m) \<and>
     (selected_id v \<noteq> None \<longrightarrow>
        (\<exists>n < length (settings v). opt_default (build_options e v ! n)))"
proof -
  have c1: "selected_id v = None \<longrightarrow> children v' = [Select (build_options e v) SelectParameter]"
    using assms(3) by (auto simp: build_items_None)
  have c2: "\<forall>k s. selected_id v = Some k \<and> dict_get (settings v) k = Some s \<longrightarrow>
        children v' = build_action e s @ [Select (build_options e v) SelectParameter]"
    using assms(3) by (auto simp: build_items_Some)
  have c3: "\<forall>b cb. Button b cb \<in> set (children v') \<longrightarrow>
        selected_id v = Some (custom_id b) \<and> cb = Action (custom_id b)"
  proof (intro allI impI)
    fix b cb assume b: "Button b cb \<in> set (children v')"
    show "selected_id v = Some (custom_id b) \<and> cb = Action (custom_id b)"
    proof (cases "selected_id v")
      case None
      with c1 b show ?thesis by simp
    next
      case (Some k)
      with assms(3) obtain s where s: "dict_get (settings v) k = Some s"
        by (cases "dict_get (settings v) k") (auto simp: build_items_KeyError)
      with Some c2 b have "Button b cb \<in> set (build_action e s)" by auto
      then have "custom_id b = setting_id s \<and> cb = Action (setting_id s)"
        by (rule custom_id_build_action)
      moreover from assms(1) s have "setting_id s = k" by (rule key_is_id_get)
      ultimately show ?thesis using Some by simp
    qed
  qed
  have c5: "\<forall>n < length (settings v).
        opt_value (build_options e v ! n) = dict_keys (settings v) ! n \<and>
        opt_value (build_options e v ! n) = setting_id (snd (settings v ! n)) \<and>
        (opt_default (build_options e v ! n) \<longleftrightarrow>
           selected_id v = Some (dict_keys (settings v) ! n))"
  proof (intro allI impI)
    fix n assume n: "n < length (settings v)"
    from assms(1) n have a: "opt_value (build_options e v ! n) = dict_keys (settings v) ! n"
      by (rule opt_value_nth)
    from n have b: "opt_value (build_options e v ! n) = setting_id (snd (settings v ! n))"
      by (simp add: nth_build_options build_option_def)
    from n have c: "opt_default (build_options e v ! n) \<longleftrightarrow>
           selected_id v = Some (dict_keys (settings v) ! n)"
      by (rule opt_default_nth)
    from a b c show "opt_value (build_options e v ! n) = dict_keys (settings v) ! n \<and>
        opt_value (build_options e v ! n) = setting_id (snd (settings v ! n)) \<and>
        (opt_default (build_options e v ! n) \<longleftrightarrow>
           selected_id v = Some (dict_keys (settings v) ! n))" by blast
  qed
  have c6: "\<forall>n < length (settings v). \<forall>m < length (settings v).
        opt_default (build_options e v ! n) \<and> opt_default (build_options e v ! m) \<longrightarrow> n = m"
    using default_unique[OF assms(2)] by blast
  have c7: "selected_id v \<noteq> None \<longrightarrow>
        (\<exists>n < length (settings v). opt_default (build_options e v ! n))"
  proof
    assume "selected_id v \<noteq> None"
    then obtain k where k: "selected_id v = Some k" by auto
    with assms(3) obtain s where "dict_get (settings v) k = Some s"
      by (cases "dict_get (settings v) k") (auto simp: build_items_KeyError)
    with k show "\<exists>n < length (settings v). opt_default (build_options e v ! n)"
      by (rule default_exists)
  qed
  have c4: "length (build_options e v) = length (settings v)"
    by (rule length_build_options)
  show ?thesis by (intro conjI c1 c2 c3 c4 c5 c6 c7)
qed

theorem build_items_selected_only_witness:
  "key_is_id (settings ex_view) \<and> distinct (dict_keys (settings ex_view)) \<and>
   build_items ex_env ex_view =
     (None, ex_view\<lparr>children := build_action ex_env (ToggleSetting False) @
                                   [Select (build_options ex_env ex_view) SelectParameter]\<rparr>) \<and>
   length (build_options ex_env ex_view) = 2 \<and>
   map opt_default (build_options ex_env ex_view) = [False, True]"
proof -
  have a: "key_is_id (settings ex_view)"
    by (simp add: key_is_id_def ex_view_def ex_dict_def setting_id_def)
  have b: "distinct (dict_keys (settings ex_view))"
    by (simp add: dict_keys_def ex_view_def ex_dict_def)
  have c: "build_items ex_env ex_view =
     (None, ex_view\<lparr>children := build_action ex_env (ToggleSetting False) @
                                   [Select (build_options ex_env ex_view) SelectParameter]\<rparr>)"
    by (rule build_items_Some [of ex_view "''toggle''" "ToggleSetting False" ex_env])
       (simp_all add: ex_view_def ex_dict_def dict_get_def)
  have l: "length (settings ex_view) = 2" by (simp add: ex_view_def ex_dict_def)
  have d: "map opt_default (build_options ex_env ex_view) = [False, True]"
    by (simp add: build_options_def build_option_def ex_view_def ex_dict_def)
  from build_items_selected_only [OF a b c] l
  have "length (build_options ex_env ex_view) = 2" by simp
  with a b c d show ?thesis by blast
qed

subsection \<open>refresh\<close>

lemma build_items_fields:
  "settings (snd (build_items e v)) = settings v \<and>
   selected_id (snd (build_items e v)) = selected_id v \<and>
   timeout_task (snd (build_items e v)) = timeout_task v \<and>
   view_bot (snd (build_items e v)) = view_bot v"
  by (simp add: build_items_def add_select_def Let_def split: option.splits)

lemma build_fields:
  "settings (snd (build e v)) = settings v \<and>
   selected_id (snd (build e v)) = selected_id v \<and>
   timeout_task (snd (build e v)) = timeout_task v \<and>
   view_bot (snd (build e v)) = view_bot v"
  using build_items_fields[of e v]
  by (cases "build_items e v") (auto simp: build_def split: option.splits if_splits)

lemma build_items_propagates: "fst (build_items e v) = Some x \<Longrightarrow> fst (build e v) = Some x"
  by (cases "build_items e v") (simp add: build_def)

lemma refresh_raises: "build e v = (Some x, v1) \<Longrightarrow> refresh e i (v, w) = (Some x, v1, w)"
  by (simp add: refresh_def)

lemma build_propagates: "fst (build e v) = Some x \<Longrightarrow> fst (refresh e i (v, w)) = Some x"
  by (cases "build e v") (simp add: refresh_def)

lemma task_cancel_effects: "effects (task_cancel h w) = effects w @ [TaskCancel h]"
  by (simp add: task_cancel_def Let_def)

lemma task_cancel_length: "length (tasks (task_cancel h w)) = length (tasks w)"
  by (simp add: task_cancel_def Let_def)

lemma task_cancel_store: "store (task_cancel h w) = store w"
  by (simp add: task_cancel_def Let_def)

lemma task_cancel_status:
  "n < length (tasks w) \<Longrightarrow>
     snd (tasks (task_cancel h w) ! n) =
       (if n = h \<and> snd (tasks w ! n) = Scheduled then Cancelling else snd (tasks w ! n))"
  by (auto simp: task_cancel_def Let_def nth_list_update)

lemma refresh_returns:
  assumes "build e v = (None, v1)"
  shows "refresh e i (v, w) =
     (None, v1\<lparr>timeout_task := Some (length (tasks w))\<rparr>,
      (cancel_stored (timeout_task v) (w\<lparr>effects := effects w @ [respond i v1]\<rparr>))
        \<lparr>effects := effects w @ [respond i v1] @ cancel_effects (timeout_task v) @
                     [CreateTask (length (tasks w)) (interaction_id i)],
         tasks := tasks (cancel_stored (timeout_task v) (w\<lparr>effects := effects w @ [respond i v1]\<rparr>))
                    @ [(i, Scheduled)]\<rparr>)"
proof -
  from assms have tt: "timeout_task v1 = timeout_task v" using build_fields[of e v] by simp
  show ?thesis
    using assms tt
    by (cases "timeout_task v")
       (simp_all add: refresh_def create_task_def cancel_stored_def cancel_effects_def
          task_cancel_effects task_cancel_length Let_def)
qed

lemma is_response_respond: "is_response (respond i v)"
  by (simp add: respond_def)

lemma cancel_stored_effects:
  "effects (cancel_stored h w) = effects w @ cancel_effects h"
  by (cases h) (simp_all add: cancel_stored_def cancel_effects_def task_cancel_effects)

lemma cancel_stored_length: "length (tasks (cancel_stored h w)) = length (tasks w)"
  by (cases h) (simp_all add: cancel_stored_def task_cancel_length)

lemma cancel_stored_store: "store (cancel_stored h w) = store w"
  by (cases h) (simp_all add: cancel_stored_def task_cancel_store)

lemma not_response_cancel: "filter is_response (cancel_effects h) = []"
  by (cases h) (simp_all add: cancel_effects_def)

lemma refresh_effects:
  assumes "build e v = (None, v1)"
  shows "effects (snd (snd (refresh e i (v, w)))) =
           effects w @ [respond i v1] @ cancel_effects (timeout_task v) @
             [CreateTask (length (tasks w)) (interaction_id i)]"
    and "length (tasks (snd (snd (refresh e i (v, w))))) = Suc (length (tasks w))"
    and "store (snd (snd (refresh e i (v, w)))) = store w"
    and "fst (snd (refresh e i (v, w))) = v1\<lparr>timeout_task := Some (length (tasks w))\<rparr>"
    and "fst (refresh e i (v, w)) = None"
  by (simp_all add: refresh_returns[OF assms] cancel_stored_length cancel_stored_store)

lemma ex_view_key_is_id: "key_is_id (settings ex_view)"
  by (simp add: key_is_id_def ex_view_def ex_dict_def setting_id_def)

lemma ex_view_toggle: "dict_get (settings ex_view) ''toggle'' = Some (ToggleSetting False)"
  by (simp add: dict_get_def ex_view_def ex_dict_def)

lemma ex_view_build: "build ex_env ex_view = (None, ex_toggle_view)"
  using build_Some [of ex_view "''toggle''" "ToggleSetting False" ex_env] ex_view_toggle
  by (simp add: ex_toggle_view_def ex_view_def)

text \<open>
  Claim C5. When the rebuild returns, \<open>refresh\<close> returns normally and makes exactly
  one response, its first effect: it edits the message of the interaction, with the
  rebuilt children and embed, when the interaction has a message, and otherwise sends a
  new ephemeral message with them. (When the rebuild raises, see \<open>refresh_raises\<close>, the
  refresh stops before it responds.)
\<close>

theorem refresh_edits_or_sends:
  assumes "build e v = (None, v1)"
  shows
    "fst (refresh e i (v, w)) = None \<and>
     (\<exists>rest. effects (snd (snd (refresh e i (v, w)))) = effects w @ respond i v1 # rest \<and>
             filter is_response rest = []) \<and>
     filter is_response (effects (snd (snd (refresh e i (v, w))))) =
       filter is_response (effects w) @ [respond i v1] \<and>
     (message i \<noteq> None \<longrightarrow>
        respond i v1 = EditMessage (interaction_id i) (children v1) (embed v1)) \<and>
     (message i = None \<longrightarrow>
        respond i v1 = SendMessage (interaction_id i) (children v1) (embed v1) True)"
proof -
  let ?rest = "cancel_effects (timeout_task v) @ [CreateTask (length (tasks w)) (interaction_id i)]"
  have a: "fst (refresh e i (v, w)) = None" by (rule refresh_effects(5)[OF assms])
  have eff: "effects (snd (snd (refresh e i (v, w)))) = effects w @ respond i v1 # ?rest"
    by (simp add: refresh_effects(1)[OF assms])
  have nr: "filter is_response ?rest = []" by (simp add: not_response_cancel)
  have b: "\<exists>rest. effects (snd (snd (refresh e i (v, w)))) = effects w @ respond i v1 # rest \<and>
             filter is_response rest = []"
    using eff nr by blast
  have c: "filter is_response (effects (snd (snd (refresh e i (v, w))))) =
       filter is_response (effects w) @ [respond i v1]"
    by (simp add: eff not_response_cancel is_response_respond)
  have d: "message i \<noteq> None \<longrightarrow>
        respond i v1 = EditMessage (interaction_id i) (children v1) (embed v1)"
    by (simp add: respond_def)
  have f: "message i = None \<longrightarrow>
        respond i v1 = SendMessage (interaction_id i) (children v1) (embed v1) True"
    by (simp add: respond_def)
  show ?thesis by (intro conjI a b c d f)
qed

theorem refresh_edits_or_sends_witness:
  "build ex_env ex_view = (None, ex_toggle_view) \<and>
   filter is_response (effects (snd (snd (refresh ex_env ex_click (ex_view, ex_world))))) =
     [EditMessage 11 (children ex_toggle_view) (embed ex_toggle_view)] \<and>
   filter is_response (effects (snd (snd (refresh ex_env ex_slash (ex_view, ex_world))))) =
     [SendMessage 10 (children ex_toggle_view) (embed ex_toggle_view) True]"
proof -
  have e: "effects ex_world = []" by (simp add: ex_world_def)
  have c: "message ex_click \<noteq> None" "interaction_id ex_click = 11"
    by (simp_all add: ex_click_def)
  have s: "message ex_slash = None" "interaction_id ex_slash = 10"
    by (simp_all add: ex_slash_def)
  from refresh_edits_or_sends [OF ex_view_build, of ex_click ex_world] e c
  have a: "filter is_response (effects (snd (snd (refresh ex_env ex_click (ex_view, ex_world))))) =
     [EditMessage 11 (children ex_toggle_view) (embed ex_toggle_view)]" by simp
  from refresh_edits_or_sends [OF ex_view_build, of ex_slash ex_world] e s
  have b: "filter is_response (effects (snd (snd (refresh ex_env ex_slash (ex_view, ex_world))))) =
     [SendMessage 10 (children ex_toggle_view) (embed ex_toggle_view) True]" by simp
  from ex_view_build a b show ?thesis by blast
qed

subsection \<open>select_parameter\<close>

lemma build_options_cong:
  "settings v' = settings v \<Longrightarrow> selected_id v' = selected_id v \<Longrightarrow>
     build_options e v' = build_options e v"
  by (simp add: build_options_def)

text \<open>
  Claim C4. For every id \<open>k\<close> that is a key of the view's settings (stored under their
  ids), \<open>select_parameter\<close> with \<open>k\<close> as the first selected value stores \<open>k\<close> as the
  selected id and returns normally; the rebuild it runs leaves the embed built by the
  setting stored under \<open>k\<close> and, as children, the action controls of that setting
  followed by the selector; a further \<open>build\<close> or \<open>_build_items\<close> produces the same again.
\<close>

theorem select_parameter_shows_setting:
  assumes "key_is_id (settings v)" and "dict_get (settings v) k = Some s"
  shows
    "fst (select_parameter e i (k # ks) (v, w)) = None \<and>
     selected_id (fst (snd (select_parameter e i (k # ks) (v, w)))) = Some k \<and>
     embed (fst (snd (select_parameter e i (k # ks) (v, w)))) = Some (build_embed e (view_bot v) s) \<and>
     children (fst (snd (select_parameter e i (k # ks) (v, w)))) =
       build_action e s @
         [Select (build_options e (fst (snd (select_parameter e i (k # ks) (v, w))))) SelectParameter] \<and>
     build e (fst (snd (select_parameter e i (k # ks) (v, w)))) =
       (None, fst (snd (select_parameter e i (k # ks) (v, w)))) \<and>
     fst (build_items e (fst (snd (select_parameter e i (k # ks) (v, w))))) = None \<and>
     children (snd (build_items e (fst (snd (select_parameter e i (k # ks) (v, w)))))) =
       children (fst (snd (select_parameter e i (k # ks) (v, w))))"
proof -
  let ?v0 = "v\<lparr>selected_id := Some k\<rparr>"
  let ?v1 = "?v0\<lparr>children := build_action e s @ [Select (build_options e ?v0) SelectParameter],
                 embed := Some (build_embed e (view_bot v) s)\<rparr>"
  let ?v2 = "?v1\<lparr>timeout_task := Some (length (tasks w))\<rparr>"
  from assms have ne: "k \<noteq> []" using key_is_id_get setting_id_nonempty by blast
  have b: "build e ?v0 = (None, ?v1)"
    using build_Some[of ?v0 k s e] assms(2) ne by simp
  have sp: "select_parameter e i (k # ks) (v, w) = refresh e i (?v0, w)"
    by (simp add: select_parameter_def)
  have r: "fst (snd (select_parameter e i (k # ks) (v, w))) = ?v2"
    by (simp add: sp refresh_effects(4)[OF b])
  have r0: "fst (select_parameter e i (k # ks) (v, w)) = None"
    by (simp add: sp refresh_effects(5)[OF b])
  have opts: "build_options e ?v2 = build_options e ?v0"
    by (rule build_options_cong) simp_all
  have b2: "build e ?v2 = (None, ?v2)"
    using build_Some[of ?v2 k s e] assms(2) ne opts by simp
  have bi2: "build_items e ?v2 =
      (None, ?v2\<lparr>children := build_action e s @ [Select (build_options e ?v2) SelectParameter]\<rparr>)"
    using build_items_Some[of ?v2 k s e] assms(2) by simp
  show ?thesis
    unfolding r r0 b2 bi2 using opts by simp
qed

theorem select_parameter_shows_setting_witness:
  "key_is_id (settings ex_view) \<and>
   dict_get (settings ex_view) ''clicker'' = Some (ClickerSetting 5) \<and>
   fst (select_parameter ex_env ex_click [''clicker''] (ex_view, ex_world)) = None \<and>
   selected_id (fst (snd (select_parameter ex_env ex_click [''clicker''] (ex_view, ex_world)))) =
     Some ''clicker'' \<and>
   embed (fst (snd (select_parameter ex_env ex_click [''clicker''] (ex_view, ex_world)))) =
     Some (build_embed ex_env 1 (ClickerSetting 5))"
proof -
  have g: "dict_get (settings ex_view) ''clicker'' = Some (ClickerSetting 5)"
    by (simp add: dict_get_def ex_view_def ex_dict_def)
  have b: "view_bot ex_view = 1" by (simp add: ex_view_def)
  from select_parameter_shows_setting [OF ex_view_key_is_id g, of ex_env ex_click "[]" ex_world] b
  have "fst (select_parameter ex_env ex_click [''clicker''] (ex_view, ex_world)) = None \<and>
   selected_id (fst (snd (select_parameter ex_env ex_click [''clicker''] (ex_view, ex_world)))) =
     Some ''clicker'' \<and>
   embed (fst (snd (select_parameter ex_env ex_click [''clicker''] (ex_view, ex_world)))) =
     Some (build_embed ex_env 1 (ClickerSetting 5))" by simp
  with ex_view_key_is_id g show ?thesis by blast
qed

subsection \<open>The cleanup task is single\<close>

lemma single_pending_iff:
  "single_pending (v, w) \<longleftrightarrow>
     (\<forall>h < length (tasks w). snd (tasks w ! h) = Scheduled \<longrightarrow> timeout_task v = Some h) \<and>
     (\<forall>h. timeout_task v = Some h \<longrightarrow> h < length (tasks w))"
  unfolding single_pending_def by (rule prod.case [THEN arg_cong [where f = "\<lambda>x. x"]])

lemma single_pendingD1:
  "single_pending (v, w) \<Longrightarrow> h < length (tasks w) \<Longrightarrow> snd (tasks w ! h) = Scheduled \<Longrightarrow>
     timeout_task v = Some h"
  unfolding single_pending_iff by blast

lemma single_pendingD2:
  "single_pending (v, w) \<Longrightarrow> timeout_task v = Some h \<Longrightarrow> h < length (tasks w)"
  unfolding single_pending_iff by blast

lemma single_pendingI:
  "(\<And>h. h < length (tasks w) \<Longrightarrow> snd (tasks w ! h) = Scheduled \<Longrightarrow> timeout_task v = Some h) \<Longrightarrow>
   (\<And>h. timeout_task v = Some h \<Longrightarrow> h < length (tasks w)) \<Longrightarrow> single_pending (v, w)"
  unfolding single_pending_iff by blast

lemma single_pending_cong:
  assumes "single_pending (v, w)" "timeout_task v' = timeout_task v" "tasks w' = tasks w"
  shows "single_pending (v', w')"
  using assms(1) unfolding single_pending_iff assms(2,3) .

lemma cancel_stored_status:
  "n < length (tasks w) \<Longrightarrow>
     snd (tasks (cancel_stored h w) ! n) =
       (if h = Some n \<and> snd (tasks w ! n) = Scheduled then Cancelling else snd (tasks w ! n))"
proof (cases h)
  case None
  then show ?thesis by (simp add: cancel_stored_def)
next
  case (Some m)
  assume "n < length (tasks w)"
  then have "snd (tasks (task_cancel m w) ! n) =
       (if n = m \<and> snd (tasks w ! n) = Scheduled then Cancelling else snd (tasks w ! n))"
    by (rule task_cancel_status)
  with Some show ?thesis by (auto simp: cancel_stored_def)
qed

lemma task_cancel_tasks_effects:
  "tasks (task_cancel h (w\<lparr>effects := x\<rparr>)) = tasks (task_cancel h w)"
  by (simp add: task_cancel_def Let_def)

lemma refresh_tasks:
  assumes "build e v = (None, v1)"
  shows "tasks (snd (snd (refresh e i (v, w)))) =
           tasks (cancel_stored (timeout_task v) w) @ [(i, Scheduled)]"
proof -
  have "tasks (cancel_stored (timeout_task v) (w\<lparr>effects := effects w @ [respond i v1]\<rparr>)) =
        tasks (cancel_stored (timeout_task v) w)"
    by (cases "timeout_task v") (simp_all add: cancel_stored_def task_cancel_tasks_effects)
  then show ?thesis by (simp add: refresh_returns[OF assms])
qed

lemma old_status_not_scheduled:
  assumes "single_pending (v, w)" and "h < length (tasks w)"
  shows "snd (tasks (cancel_stored (timeout_task v) w) ! h) \<noteq> Scheduled"
proof (cases "snd (tasks w ! h) = Scheduled")
  case True
  from assms True have tt: "timeout_task v = Some h" by (rule single_pendingD1)
  have "snd (tasks (cancel_stored (Some h) w) ! h) = Cancelling"
    using cancel_stored_status[OF assms(2), of "Some h"] True by simp
  then show ?thesis unfolding tt by simp
next
  case False
  have "snd (tasks (cancel_stored (timeout_task v) w) ! h) = snd (tasks w ! h)"
    using cancel_stored_status[OF assms(2), of "timeout_task v"] False by simp
  with False show ?thesis by simp
qed

lemma refresh_status_new:
  assumes "build e v = (None, v1)"
  shows "snd (tasks (snd (snd (refresh e i (v, w)))) ! length (tasks w)) = Scheduled"
proof -
  have "length (tasks (cancel_stored (timeout_task v) w)) = length (tasks w)"
    by (rule cancel_stored_length)
  then show ?thesis unfolding refresh_tasks[OF assms] by (simp add: nth_append)
qed

lemma refresh_status_old:
  assumes "build e v = (None, v1)" and "single_pending (v, w)" and "h < length (tasks w)"
  shows "snd (tasks (snd (snd (refresh e i (v, w)))) ! h) \<noteq> Scheduled"
proof -
  have l: "length (tasks (cancel_stored (timeout_task v) w)) = length (tasks w)"
    by (rule cancel_stored_length)
  have "tasks (snd (snd (refresh e i (v, w)))) ! h = tasks (cancel_stored (timeout_task v) w) ! h"
    unfolding refresh_tasks[OF assms(1)] using assms(3) l by (simp add: nth_append)
  then show ?thesis using old_status_not_scheduled[OF assms(2,3)] by simp
qed

lemma refresh_status:
  assumes "build e v = (None, v1)" and "single_pending (v, w)"
    and "h < Suc (length (tasks w))"
  shows "snd (tasks (snd (snd (refresh e i (v, w)))) ! h) = Scheduled \<longleftrightarrow> h = length (tasks w)"
proof (cases "h = length (tasks w)")
  case True
  show ?thesis unfolding True using refresh_status_new[OF assms(1)] by simp
next
  case False
  with assms(3) have "h < length (tasks w)" by simp
  from refresh_status_old[OF assms(1,2) this] False show ?thesis by simp
qed

lemma single_pending_refresh:
  assumes "single_pending (v, w)"
  shows "single_pending (fst (snd (refresh e i (v, w))), snd (snd (refresh e i (v, w))))"
proof (cases "build e v")
  case (Pair r v1)
  show ?thesis
  proof (cases r)
    case (Some x)
    with Pair have r: "refresh e i (v, w) = (Some x, v1, w)" by (simp add: refresh_raises)
    have "timeout_task (snd (build e v)) = timeout_task v" using build_fields[of e v] by blast
    with Pair have tt: "timeout_task v1 = timeout_task v" by simp
    have "single_pending (v1, w)" using assms tt refl by (rule single_pending_cong)
    then show ?thesis unfolding r by simp
  next
    case None
    with Pair have b: "build e v = (None, v1)" by simp
    have len: "length (tasks (snd (snd (refresh e i (v, w))))) = Suc (length (tasks w))"
      by (rule refresh_effects(2)[OF b])
    have tt: "timeout_task (fst (snd (refresh e i (v, w)))) = Some (length (tasks w))"
      unfolding refresh_effects(4)[OF b] by simp
    show ?thesis
    proof (rule single_pendingI)
      fix h
      assume h: "h < length (tasks (snd (snd (refresh e i (v, w)))))"
        and s: "snd (tasks (snd (snd (refresh e i (v, w)))) ! h) = Scheduled"
      from h len have "h < Suc (length (tasks w))" by simp
      from refresh_status[OF b assms this, of i] s have "h = length (tasks w)" by simp
      with tt show "timeout_task (fst (snd (refresh e i (v, w)))) = Some h" by simp
    next
      fix h
      assume "timeout_task (fst (snd (refresh e i (v, w)))) = Some h"
      with tt have "h = length (tasks w)" by simp
      with len show "h < length (tasks (snd (snd (refresh e i (v, w)))))" by simp
    qed
  qed
qed

lemma message_delete_after_tasks: "tasks (snd (message_delete_after i sl dl w)) = tasks w"
  by (cases sl; cases dl) (simp_all add: message_delete_after_def delete_body_def)

lemma task_run_tasks:
  "tasks (task_run h d w) = tasks w \<or>
   (\<exists>i r. h < length (tasks w) \<and> tasks (task_run h d w) = (tasks w)[h := (i, Done r)])"
proof (cases "h < length (tasks w)")
  case True
  obtain i st where t: "tasks w ! h = (i, st)" by (cases "tasks w ! h")
  show ?thesis
  proof (cases st)
    case Scheduled
    obtain r w' where m: "message_delete_after i None d w = (r, w')"
      by (cases "message_delete_after i None d w")
    have "tasks (snd (message_delete_after i None d w)) = tasks w"
      by (rule message_delete_after_tasks)
    with m have tw: "tasks w' = tasks w" by simp
    have "task_run h d w = w'\<lparr>tasks := (tasks w')[h := (i, Done r)]\<rparr>"
      using True t Scheduled m by (simp add: task_run_def)
    then have "tasks (task_run h d w) = (tasks w)[h := (i, Done r)]" using tw by simp
    with True show ?thesis by blast
  next
    case Cancelling
    obtain r w' where m: "message_delete_after i (Some CancelledError) d w = (r, w')"
      by (cases "message_delete_after i (Some CancelledError) d w")
    have "tasks (snd (message_delete_after i (Some CancelledError) d w)) = tasks w"
      by (rule message_delete_after_tasks)
    with m have tw: "tasks w' = tasks w" by simp
    have "task_run h d w = w'\<lparr>tasks := (tasks w')[h := (i, Done r)]\<rparr>"
      using True t Cancelling m by (simp add: task_run_def)
    then have "tasks (task_run h d w) = (tasks w)[h := (i, Done r)]" using tw by simp
    with True show ?thesis by blast
  next
    case (Done r)
    have "task_run h d w = w" using True t Done by (simp add: task_run_def)
    then show ?thesis by simp
  qed
next
  case False
  then have "task_run h d w = w" by (simp add: task_run_def)
  then show ?thesis by simp
qed

lemma task_run_length: "length (tasks (task_run h d w)) = length (tasks w)"
  using task_run_tasks[of h d w] by auto

lemma task_run_status:
  assumes "n < length (tasks w)" and "snd (tasks (task_run h d w) ! n) = Scheduled"
  shows "snd (tasks w ! n) = Scheduled"
proof -
  from task_run_tasks[of h d w] show ?thesis
  proof
    assume "tasks (task_run h d w) = tasks w"
    with assms(2) show ?thesis by simp
  next
    assume "\<exists>i r. h < length (tasks w) \<and> tasks (task_run h d w) = (tasks w)[h := (i, Done r)]"
    then obtain i r where u: "tasks (task_run h d w) = (tasks w)[h := (i, Done r)]" by blast
    show ?thesis
    proof (cases "n = h")
      case True
      with assms u show ?thesis by simp
    next
      case False
      with assms u show ?thesis by simp
    qed
  qed
qed

lemma single_pending_task_run:
  assumes "single_pending (v, w)"
  shows "single_pending (v, task_run h d w)"
proof (rule single_pendingI)
  fix n
  assume n: "n < length (tasks (task_run h d w))"
    and s: "snd (tasks (task_run h d w) ! n) = Scheduled"
  from n have n': "n < length (tasks w)" by (simp add: task_run_length)
  from n' s have "snd (tasks w ! n) = Scheduled" by (rule task_run_status)
  with assms n' show "timeout_task v = Some n" by (rule single_pendingD1)
next
  fix n
  assume "timeout_task v = Some n"
  with assms have "n < length (tasks w)" by (rule single_pendingD2)
  then show "n < length (tasks (task_run h d w))" by (simp add: task_run_length)
qed

lemma single_pending_select:
  assumes "single_pending (v, w)"
  shows "single_pending (fst (snd (select_parameter e i vals (v, w))),
                         snd (snd (select_parameter e i vals (v, w))))"
proof (cases vals)
  case Nil
  then have "select_parameter e i vals (v, w) = (Some IndexError, v, w)"
    by (simp add: select_parameter_def)
  with assms show ?thesis by simp
next
  case (Cons k ks)
  have "single_pending (v\<lparr>selected_id := Some k\<rparr>, w)"
    using assms by (rule single_pending_cong) simp_all
  then have "single_pending (fst (snd (refresh e i (v\<lparr>selected_id := Some k\<rparr>, w))),
                             snd (snd (refresh e i (v\<lparr>selected_id := Some k\<rparr>, w))))"
    by (rule single_pending_refresh)
  moreover have "select_parameter e i vals (v, w) = refresh e i (v\<lparr>selected_id := Some k\<rparr>, w)"
    using Cons by (simp add: select_parameter_def)
  ultimately show ?thesis by simp
qed

lemma action_mutate_tasks: "tasks (snd (action_mutate s w)) = tasks w"
  by (cases s) (simp_all add: TextChannel_update_def)

lemma action_unfold:
  "dict_get (settings v) k = Some s \<Longrightarrow>
     action e k i (v, w) =
       refresh e i (v\<lparr>settings := dict_set (settings v) k (fst (action_mutate s w))\<rparr>,
                    snd (action_mutate s w))"
  by (cases "action_mutate s w") (simp add: action_def)

lemma action_absent: "dict_get (settings v) k = None \<Longrightarrow> action e k i (v, w) = (None, v, w)"
  by (simp add: action_def)

lemma single_pending_action:
  assumes "single_pending (v, w)"
  shows "single_pending (fst (snd (action e k i (v, w))), snd (snd (action e k i (v, w))))"
proof (cases "dict_get (settings v) k")
  case None
  then have "action e k i (v, w) = (None, v, w)" by (rule action_absent)
  with assms show ?thesis by simp
next
  case (Some s)
  let ?v = "v\<lparr>settings := dict_set (settings v) k (fst (action_mutate s w))\<rparr>"
  let ?w = "snd (action_mutate s w)"
  have "single_pending (?v, ?w)"
    using assms by (rule single_pending_cong) (simp_all add: action_mutate_tasks)
  then have "single_pending (fst (snd (refresh e i (?v, ?w))), snd (snd (refresh e i (?v, ?w))))"
    by (rule single_pending_refresh)
  then show ?thesis unfolding action_unfold[OF Some] .
qed

lemma single_pending_step:
  assumes "single_pending (v, w)"
  shows "single_pending (fst (do_step e x (v, w)), snd (do_step e x (v, w)))"
proof (cases x)
  case (Refresh i)
  with single_pending_refresh[OF assms, of e i] show ?thesis by simp
next
  case (SelectValues i vals)
  with single_pending_select[OF assms, of e i vals] show ?thesis by simp
next
  case (Click k i)
  with single_pending_action[OF assms, of e k i] show ?thesis by simp
next
  case (TaskRuns h d)
  with single_pending_task_run[OF assms, of h d] show ?thesis by simp
qed

lemma single_pending_run:
  "single_pending (v, w) \<Longrightarrow> single_pending (fst (run e xs (v, w)), snd (run e xs (v, w)))"
proof (induction xs arbitrary: v w)
  case Nil
  then show ?case by simp
next
  case (Cons x xs)
  from Cons.prems have "single_pending (fst (do_step e x (v, w)), snd (do_step e x (v, w)))"
    by (rule single_pending_step)
  from Cons.IH[OF this] show ?case by simp
qed

lemma init_timeout_task: "SettingsView_init w i c = Inr v \<Longrightarrow> timeout_task v = None"
  by (auto simp: SettingsView_init_def split: sum.splits)

lemma single_pending_init:
  assumes "SettingsView_init w i c = Inr v" and "tasks w = []"
  shows "single_pending (v, w)"
proof (rule single_pendingI)
  fix h assume "h < length (tasks w)"
  with assms(2) show "timeout_task v = Some h" by simp
next
  fix h assume "timeout_task v = Some h"
  with init_timeout_task[OF assms(1)] show "h < length (tasks w)" by simp
qed

lemma distinct_pending: "distinct (pending w)"
  by (simp add: pending_def)

lemma set_pending: "set (pending w) = {h. h < length (tasks w) \<and> snd (tasks w ! h) = Scheduled}"
  by (auto simp: pending_def)

lemma pending_at_most_one:
  assumes "single_pending (v, w)"
  shows "length (pending w) \<le> 1"
proof -
  have "set (pending w) \<subseteq> set_option (timeout_task v)"
  proof
    fix h assume "h \<in> set (pending w)"
    then have "h < length (tasks w)" "snd (tasks w ! h) = Scheduled" by (simp_all add: set_pending)
    with assms have "timeout_task v = Some h" by (rule single_pendingD1)
    then show "h \<in> set_option (timeout_task v)" by simp
  qed
  then have "card (set (pending w)) \<le> card (set_option (timeout_task v))"
    by (intro card_mono) simp_all
  also have "\<dots> \<le> 1" by (cases "timeout_task v") simp_all
  finally show ?thesis using distinct_pending[of w] by (simp add: distinct_card)
qed

lemma singleton_list:
  assumes "distinct xs" and "set xs = {a}"
  shows "xs = [a]"
proof -
  have "length xs = 1" using distinct_card[OF assms(1)] assms(2) by simp
  then obtain x where x: "xs = [x]" by (cases xs) auto
  with assms(2) show ?thesis by simp
qed

lemma refresh_pending:
  assumes "build e v = (None, v1)" and "single_pending (v, w)"
  shows "pending (snd (snd (refresh e i (v, w)))) = [length (tasks w)]"
proof -
  have len: "length (tasks (snd (snd (refresh e i (v, w))))) = Suc (length (tasks w))"
    by (rule refresh_effects(2)[OF assms(1)])
  have "set (pending (snd (snd (refresh e i (v, w))))) = {length (tasks w)}"
  proof (intro set_eqI iffI)
    fix h assume "h \<in> set (pending (snd (snd (refresh e i (v, w)))))"
    then have h: "h < Suc (length (tasks w))"
      and s: "snd (tasks (snd (snd (refresh e i (v, w)))) ! h) = Scheduled"
      unfolding set_pending len by simp_all
    from refresh_status[OF assms h, of i] s show "h \<in> {length (tasks w)}" by simp
  next
    fix h assume "h \<in> {length (tasks w)}"
    then have h: "h = length (tasks w)" by simp
    have "snd (tasks (snd (snd (refresh e i (v, w)))) ! length (tasks w)) = Scheduled"
      by (rule refresh_status_new[OF assms(1)])
    then show "h \<in> set (pending (snd (snd (refresh e i (v, w)))))"
      unfolding set_pending len h by simp
  qed
  with distinct_pending show ?thesis by (rule singleton_list)
qed

lemma ex_init: "SettingsView_init ex_world ex_slash ex_channel = Inr ex_init_view"
  by (simp add: SettingsView_init_def dict_from_settings_def FixTweetSetting_init_def
      is_fixtweet_enabled_def ex_world_def ex_slash_def ex_init_view_def setting_id_def)

text \<open>
  Claim C1. In every state that a new view reaches by any sequence of refreshes,
  selections, activations and task runs (starting with no task), at most one cleanup
  task is scheduled, before and after a further \<open>refresh\<close>. A \<open>refresh\<close> whose rebuild
  returns responds, then cancels the stored task handle if there is one, then creates
  the new task and stores its handle; afterwards the new task is the only scheduled one.
  A \<open>refresh\<close> whose rebuild raises leaves the handle and the world unchanged.
\<close>

theorem refresh_single_cleanup:
  assumes "SettingsView_init w0 i0 c0 = Inr v0" and "tasks w0 = []"
    and "run e steps (v0, w0) = (v, w)"
  shows
    "length (pending w) \<le> 1 \<and>
     length (pending (snd (snd (refresh e i (v, w))))) \<le> 1 \<and>
     (\<forall>v1. build e v = (None, v1) \<longrightarrow>
        effects (snd (snd (refresh e i (v, w)))) =
          effects w @ [respond i v1] @
            (case timeout_task v of None \<Rightarrow> [] | Some h \<Rightarrow> [TaskCancel h]) @
            [CreateTask (length (tasks w)) (interaction_id i)] \<and>
        timeout_task (fst (snd (refresh e i (v, w)))) = Some (length (tasks w)) \<and>
        pending (snd (snd (refresh e i (v, w)))) = [length (tasks w)]) \<and>
     (\<forall>x v1. build e v = (Some x, v1) \<longrightarrow>
        timeout_task (fst (snd (refresh e i (v, w)))) = timeout_task v \<and>
        snd (snd (refresh e i (v, w))) = w)"
proof -
  have "single_pending (v0, w0)" using assms(1,2) by (rule single_pending_init)
  then have "single_pending (fst (run e steps (v0, w0)), snd (run e steps (v0, w0)))"
    by (rule single_pending_run)
  then have sp: "single_pending (v, w)" unfolding assms(3) by simp
  have a: "length (pending w) \<le> 1" using sp by (rule pending_at_most_one)
  have "single_pending (fst (snd (refresh e i (v, w))), snd (snd (refresh e i (v, w))))"
    using sp by (rule single_pending_refresh)
  then have b: "length (pending (snd (snd (refresh e i (v, w))))) \<le> 1"
    by (rule pending_at_most_one)
  have c: "\<forall>v1. build e v = (None, v1) \<longrightarrow>
        effects (snd (snd (refresh e i (v, w)))) =
          effects w @ [respond i v1] @
            (case timeout_task v of None \<Rightarrow> [] | Some h \<Rightarrow> [TaskCancel h]) @
            [CreateTask (length (tasks w)) (interaction_id i)] \<and>
        timeout_task (fst (snd (refresh e i (v, w)))) = Some (length (tasks w)) \<and>
        pending (snd (snd (refresh e i (v, w)))) = [length (tasks w)]"
  proof (intro allI impI conjI)
    fix v1 assume bd: "build e v = (None, v1)"
    show "effects (snd (snd (refresh e i (v, w)))) =
          effects w @ [respond i v1] @
            (case timeout_task v of None \<Rightarrow> [] | Some h \<Rightarrow> [TaskCancel h]) @
            [CreateTask (length (tasks w)) (interaction_id i)]"
      unfolding refresh_effects(1)[OF bd] cancel_effects_def ..
    show "timeout_task (fst (snd (refresh e i (v, w)))) = Some (length (tasks w))"
      unfolding refresh_effects(4)[OF bd] by simp
    show "pending (snd (snd (refresh e i (v, w)))) = [length (tasks w)]"
      using bd sp by (rule refresh_pending)
  qed
  have d: "\<forall>x v1. build e v = (Some x, v1) \<longrightarrow>
        timeout_task (fst (snd (refresh e i (v, w)))) = timeout_task v \<and>
        snd (snd (refresh e i (v, w))) = w"
  proof (intro allI impI)
    fix x v1 assume bd: "build e v = (Some x, v1)"
    have "timeout_task (snd (build e v)) = timeout_task v" using build_fields[of e v] by blast
    with bd have "timeout_task v1 = timeout_task v" by simp
    then show "timeout_task (fst (snd (refresh e i (v, w)))) = timeout_task v \<and>
        snd (snd (refresh e i (v, w))) = w"
      unfolding refresh_raises[OF bd] by simp
  qed
  show ?thesis by (intro conjI a b c d)
qed

lemma ex_run_pending: "pending (snd (run ex_env ex_steps (ex_init_view, ex_world))) = [2]"
  by code_simp

lemma ex_run_status:
  "map snd (tasks (snd (run ex_env ex_steps (ex_init_view, ex_world)))) =
     [Done None, Cancelling, Scheduled]"
  by code_simp

lemma ex_run_handle: "timeout_task (fst (run ex_env ex_steps (ex_init_view, ex_world))) = Some 2"
  by code_simp

theorem refresh_single_cleanup_witness:
  "SettingsView_init ex_world ex_slash ex_channel = Inr ex_init_view \<and>
   tasks ex_world = [] \<and>
   pending (snd (run ex_env ex_steps (ex_init_view, ex_world))) = [2] \<and>
   timeout_task (fst (run ex_env ex_steps (ex_init_view, ex_world))) = Some 2 \<and>
   length (pending (snd (run ex_env ex_steps (ex_init_view, ex_world)))) \<le> 1 \<and>
   length (pending (snd (snd (refresh ex_env ex_click
      (run ex_env ex_steps (ex_init_view, ex_world)))))) \<le> 1"
proof -
  have t: "tasks ex_world = []" by (simp add: ex_world_def)
  have r: "run ex_env ex_steps (ex_init_view, ex_world) =
     (fst (run ex_env ex_steps (ex_init_view, ex_world)),
      snd (run ex_env ex_steps (ex_init_view, ex_world)))" by simp
  note th = refresh_single_cleanup [OF ex_init t r, of ex_click]
  have a: "length (pending (snd (run ex_env ex_steps (ex_init_view, ex_world)))) \<le> 1"
    by (rule th [THEN conjunct1])
  have b: "length (pending (snd (snd (refresh ex_env ex_click
      (run ex_env ex_steps (ex_init_view, ex_world)))))) \<le> 1"
    using th [THEN conjunct2, THEN conjunct1] by simp
  show ?thesis by (intro conjI ex_init t ex_run_pending ex_run_handle a b)
qed

subsection \<open>The actions\<close>

lemma refresh_view_fields:
  "settings (fst (snd (refresh e i (v, w)))) = settings v \<and>
   selected_id (fst (snd (refresh e i (v, w)))) = selected_id v \<and>
   store (snd (snd (refresh e i (v, w)))) = store w"
proof (cases "build e v")
  case (Pair r v1)
  have f: "settings (snd (build e v)) = settings v \<and> selected_id (snd (build e v)) = selected_id v"
    using build_fields[of e v] by blast
  show ?thesis
  proof (cases r)
    case (Some x)
    with Pair have "refresh e i (v, w) = (Some x, v1, w)" by (simp add: refresh_raises)
    with f Pair show ?thesis by simp
  next
    case None
    with Pair have b: "build e v = (None, v1)" by simp
    from f b show ?thesis
      unfolding refresh_effects(3)[OF b] refresh_effects(4)[OF b] by simp
  qed
qed

lemma build_succeeds:
  assumes "selected_id v = None \<or> (\<exists>s. selected_id v = Some k \<and> dict_get (settings v) k = Some s)"
  shows "fst (build e v) = None"
proof -
  from assms show ?thesis
  proof
    assume "selected_id v = None"
    then show ?thesis by (simp add: build_None)
  next
    assume "\<exists>s. selected_id v = Some k \<and> dict_get (settings v) k = Some s"
    then obtain s where s: "selected_id v = Some k" "dict_get (settings v) k = Some s" by blast
    show ?thesis
    proof (cases "k = []")
      case True
      with s show ?thesis by (simp add: build_empty_key)
    next
      case False
      with s show ?thesis by (simp add: build_Some)
    qed
  qed
qed

lemma respond_timeout: "respond i (v\<lparr>timeout_task := x\<rparr>) = respond i v"
  by (simp add: respond_def)

lemma action_mutate_responses:
  "filter is_response (effects (snd (action_mutate s w))) = filter is_response (effects w)"
  by (cases s) (simp_all add: TextChannel_update_def)

lemma action_mutate_store:
  "store (snd (action_mutate s w)) =
     (case s of FixTweetSetting st c \<Rightarrow> (store w)((guild_id c, channel_id c) := \<not> st)
      | _ \<Rightarrow> store w)"
  by (cases s) (simp_all add: TextChannel_update_def)

lemma action_mutate_own:
  "fst (action_mutate s w) =
     (case s of ClickerSetting n \<Rightarrow> ClickerSetting (n + 1)
      | ToggleSetting st \<Rightarrow> ToggleSetting (\<not> st)
      | FixTweetSetting st c \<Rightarrow> FixTweetSetting (\<not> st) c)"
  by (cases s) simp_all

lemma dict_keys_dict_set_present:
  "dict_get d k = Some s \<Longrightarrow> dict_keys (dict_set d k s') = dict_keys d"
proof -
  assume "dict_get d k = Some s"
  then have "(k, s) \<in> set d" by (rule dict_get_mem)
  then have "k \<in> set (dict_keys d)" by (auto simp: dict_keys_def intro: rev_image_eqI)
  then show ?thesis by (simp add: dict_keys_dict_set)
qed

text \<open>
  Claim C3, as amended. The \<open>action\<close> of the setting stored under \<open>k\<close> is one call of
  \<open>refresh\<close> on the state in which, among the settings, only that setting has changed:
  the counter of a clicker is incremented, the state of a toggle or of the fixtweet
  setting is negated. Afterwards the keys of the dict and the selected id are the same
  and every other key holds the very setting it held before. \<open>FixTweetSetting.action\<close>
  also writes its new state to the durable store, at the flag of its own channel and
  nowhere else; the other actions leave the store as it was. When the action returns
  normally, the one refresh made exactly one response and created exactly one task; it
  returns normally whenever nothing or this setting is selected.
\<close>

theorem action_own_state_one_refresh:
  assumes "dict_get (settings v) k = Some s"
  shows
    "action e k i (v, w) =
       refresh e i (v\<lparr>settings := dict_set (settings v) k (fst (action_mutate s w))\<rparr>,
                    snd (action_mutate s w)) \<and>
     fst (action_mutate s w) =
       (case s of ClickerSetting n \<Rightarrow> ClickerSetting (n + 1)
        | ToggleSetting st \<Rightarrow> ToggleSetting (\<not> st)
        | FixTweetSetting st c \<Rightarrow> FixTweetSetting (\<not> st) c) \<and>
     dict_keys (settings (fst (snd (action e k i (v, w))))) = dict_keys (settings v) \<and>
     dict_get (settings (fst (snd (action e k i (v, w))))) k = Some (fst (action_mutate s w)) \<and>
     (\<forall>k'. k' \<noteq> k \<longrightarrow>
        dict_get (settings (fst (snd (action e k i (v, w))))) k' = dict_get (settings v) k') \<and>
     selected_id (fst (snd (action e k i (v, w)))) = selected_id v \<and>
     store (snd (snd (action e k i (v, w)))) =
       (case s of FixTweetSetting st c \<Rightarrow> (store w)((guild_id c, channel_id c) := \<not> st)
        | _ \<Rightarrow> store w) \<and>
     (fst (action e k i (v, w)) = None \<longrightarrow>
        filter is_response (effects (snd (snd (action e k i (v, w))))) =
          filter is_response (effects w) @ [respond i (fst (snd (action e k i (v, w))))] \<and>
        length (tasks (snd (snd (action e k i (v, w))))) = Suc (length (tasks w))) \<and>
     (selected_id v = None \<or> selected_id v = Some k \<longrightarrow> fst (action e k i (v, w)) = None)"
proof -
  let ?s = "fst (action_mutate s w)"
  let ?v = "v\<lparr>settings := dict_set (settings v) k ?s\<rparr>"
  let ?w = "snd (action_mutate s w)"
  have au: "action e k i (v, w) = refresh e i (?v, ?w)" using assms by (rule action_unfold)
  have f: "settings (fst (snd (refresh e i (?v, ?w)))) = settings ?v \<and>
           selected_id (fst (snd (refresh e i (?v, ?w)))) = selected_id ?v \<and>
           store (snd (snd (refresh e i (?v, ?w)))) = store ?w"
    by (rule refresh_view_fields)
  have c2: "?s = (case s of ClickerSetting n \<Rightarrow> ClickerSetting (n + 1)
        | ToggleSetting st \<Rightarrow> ToggleSetting (\<not> st)
        | FixTweetSetting st c \<Rightarrow> FixTweetSetting (\<not> st) c)"
    by (rule action_mutate_own)
  have c3: "dict_keys (settings (fst (snd (action e k i (v, w))))) = dict_keys (settings v)"
    unfolding au using f dict_keys_dict_set_present[OF assms] by simp
  have c4: "dict_get (settings (fst (snd (action e k i (v, w))))) k = Some ?s"
    unfolding au using f by (simp add: dict_get_dict_set)
  have c5: "\<forall>k'. k' \<noteq> k \<longrightarrow>
        dict_get (settings (fst (snd (action e k i (v, w))))) k' = dict_get (settings v) k'"
    unfolding au using f by (simp add: dict_get_dict_set)
  have c6: "selected_id (fst (snd (action e k i (v, w)))) = selected_id v"
    unfolding au using f by simp
  have c7: "store (snd (snd (action e k i (v, w)))) =
       (case s of FixTweetSetting st c \<Rightarrow> (store w)((guild_id c, channel_id c) := \<not> st)
        | _ \<Rightarrow> store w)"
    unfolding au using f action_mutate_store[of s w] by simp
  have c8: "fst (action e k i (v, w)) = None \<longrightarrow>
        filter is_response (effects (snd (snd (action e k i (v, w))))) =
          filter is_response (effects w) @ [respond i (fst (snd (action e k i (v, w))))] \<and>
        length (tasks (snd (snd (action e k i (v, w))))) = Suc (length (tasks w))"
  proof
    assume ok: "fst (action e k i (v, w)) = None"
    obtain r v1 where b0: "build e ?v = (r, v1)" by (cases "build e ?v")
    have "r = None"
    proof (cases r)
      case None
      then show ?thesis .
    next
      case (Some x)
      with b0 have "refresh e i (?v, ?w) = (Some x, v1, ?w)" by (simp add: refresh_raises)
      with ok au show ?thesis by simp
    qed
    with b0 have b: "build e ?v = (None, v1)" by simp
    have e1: "filter is_response (effects (snd (snd (refresh e i (?v, ?w))))) =
          filter is_response (effects w) @ [respond i v1]"
      unfolding refresh_effects(1)[OF b]
      by (simp add: not_response_cancel is_response_respond action_mutate_responses)
    have e2: "respond i (fst (snd (refresh e i (?v, ?w)))) = respond i v1"
      unfolding refresh_effects(4)[OF b] by (rule respond_timeout)
    have e3: "length (tasks (snd (snd (refresh e i (?v, ?w))))) = Suc (length (tasks w))"
      unfolding refresh_effects(2)[OF b] by (simp add: action_mutate_tasks)
    from e1 e2 e3 show "filter is_response (effects (snd (snd (action e k i (v, w))))) =
          filter is_response (effects w) @ [respond i (fst (snd (action e k i (v, w))))] \<and>
        length (tasks (snd (snd (action e k i (v, w))))) = Suc (length (tasks w))"
      unfolding au by simp
  qed
  have c9: "selected_id v = None \<or> selected_id v = Some k \<longrightarrow> fst (action e k i (v, w)) = None"
  proof
    assume sel: "selected_id v = None \<or> selected_id v = Some k"
    have g: "dict_get (settings ?v) k = Some ?s" by (simp add: dict_get_dict_set)
    from sel g have "selected_id ?v = None \<or>
        (\<exists>s'. selected_id ?v = Some k \<and> dict_get (settings ?v) k = Some s')" by auto
    then have "fst (build e ?v) = None" by (rule build_succeeds)
    then obtain v1 where b: "build e ?v = (None, v1)" by (cases "build e ?v") auto
    show "fst (action e k i (v, w)) = None" unfolding au by (rule refresh_effects(5)[OF b])
  qed
  show ?thesis by (intro conjI au c2 c3 c4 c5 c6 c7 c8 c9)
qed

lemma ex_init_view_fixtweet:
  "dict_get (settings ex_init_view) ''fixtweet'' = Some (FixTweetSetting False ex_channel)"
  by (simp add: dict_get_def ex_init_view_def)

theorem action_own_state_one_refresh_witness:
  "dict_get (settings ex_view) ''toggle'' = Some (ToggleSetting False) \<and>
   dict_get (settings (fst (snd (action ex_env ''toggle'' ex_click (ex_view, ex_world))))) ''toggle'' =
     Some (ToggleSetting True) \<and>
   dict_get (settings (fst (snd (action ex_env ''toggle'' ex_click (ex_view, ex_world))))) ''clicker'' =
     Some (ClickerSetting 5) \<and>
   fst (action ex_env ''toggle'' ex_click (ex_view, ex_world)) = None \<and>
   length (filter is_response
     (effects (snd (snd (action ex_env ''toggle'' ex_click (ex_view, ex_world)))))) = 1 \<and>
   length (tasks (snd (snd (action ex_env ''toggle'' ex_click (ex_view, ex_world))))) = 1 \<and>
   store (snd (snd (action ex_env ''toggle'' ex_click (ex_view, ex_world)))) = store ex_world \<and>
   dict_get (settings ex_init_view) ''fixtweet'' = Some (FixTweetSetting False ex_channel) \<and>
   dict_get (settings (fst (snd (action ex_env ''fixtweet'' ex_click (ex_init_view, ex_world)))))
     ''fixtweet'' = Some (FixTweetSetting True ex_channel) \<and>
   store (snd (snd (action ex_env ''fixtweet'' ex_click (ex_init_view, ex_world)))) =
     (store ex_world)((3, 5) := True)"
proof -
  have g: "dict_get (settings ex_view) ''clicker'' = Some (ClickerSetting 5)"
    by (simp add: dict_get_def ex_view_def ex_dict_def)
  have sel: "selected_id ex_view = None \<or> selected_id ex_view = Some ''toggle''"
    by (simp add: ex_view_def)
  have w: "effects ex_world = []" "tasks ex_world = []" by (simp_all add: ex_world_def)
  have ne: "''clicker'' \<noteq> ''toggle''" by simp
  have m: "fst (action_mutate (ToggleSetting False) ex_world) = ToggleSetting True" by simp
  note th = action_own_state_one_refresh [OF ex_view_toggle, of ex_env ex_click ex_world]
  note t4 = th [THEN conjunct2, THEN conjunct2, THEN conjunct2, THEN conjunct1]
  note t5 = th [THEN conjunct2, THEN conjunct2, THEN conjunct2, THEN conjunct2, THEN conjunct1]
  note t7 = th [THEN conjunct2, THEN conjunct2, THEN conjunct2, THEN conjunct2, THEN conjunct2,
                THEN conjunct2, THEN conjunct1]
  note t8 = th [THEN conjunct2, THEN conjunct2, THEN conjunct2, THEN conjunct2, THEN conjunct2,
                THEN conjunct2, THEN conjunct2, THEN conjunct1]
  note t9 = th [THEN conjunct2, THEN conjunct2, THEN conjunct2, THEN conjunct2, THEN conjunct2,
                THEN conjunct2, THEN conjunct2, THEN conjunct2]
  have a: "dict_get (settings (fst (snd (action ex_env ''toggle'' ex_click (ex_view, ex_world))))) ''toggle'' =
     Some (ToggleSetting True)"
    using t4 unfolding m .
  have b: "dict_get (settings (fst (snd (action ex_env ''toggle'' ex_click (ex_view, ex_world))))) ''clicker'' =
     Some (ClickerSetting 5)"
    using t5 [THEN spec, THEN mp, OF ne] unfolding g .
  have c: "fst (action ex_env ''toggle'' ex_click (ex_view, ex_world)) = None"
    using t9 [THEN mp, OF sel] .
  note de = t8 [THEN mp, OF c]
  have d: "length (filter is_response
     (effects (snd (snd (action ex_env ''toggle'' ex_click (ex_view, ex_world)))))) = 1"
    unfolding de [THEN conjunct1] w by simp
  have e: "length (tasks (snd (snd (action ex_env ''toggle'' ex_click (ex_view, ex_world))))) = 1"
    unfolding de [THEN conjunct2] w by simp
  have f: "store (snd (snd (action ex_env ''toggle'' ex_click (ex_view, ex_world)))) = store ex_world"
    using t7 by simp
  note fx = action_own_state_one_refresh [OF ex_init_view_fixtweet, of ex_env ex_click ex_world]
  note f4 = fx [THEN conjunct2, THEN conjunct2, THEN conjunct2, THEN conjunct1]
  note f7 = fx [THEN conjunct2, THEN conjunct2, THEN conjunct2, THEN conjunct2, THEN conjunct2,
                THEN conjunct2, THEN conjunct1]
  have m2: "fst (action_mutate (FixTweetSetting False ex_channel) ex_world) =
              FixTweetSetting True ex_channel" by simp
  have ids: "guild_id ex_channel = 3" "channel_id ex_channel = 5"
    by (simp_all add: ex_channel_def)
  have a2: "dict_get (settings (fst (snd (action ex_env ''fixtweet'' ex_click (ex_init_view, ex_world)))))
     ''fixtweet'' = Some (FixTweetSetting True ex_channel)"
    using f4 unfolding m2 .
  have f2: "store (snd (snd (action ex_env ''fixtweet'' ex_click (ex_init_view, ex_world)))) =
     (store ex_world)((3, 5) := True)"
    using f7 by (simp add: ids)
  show ?thesis by (intro conjI ex_view_toggle a b c d e f ex_init_view_fixtweet a2 f2)
qed

text \<open>
  Claim C3 as stated fails: the action of the fixtweet setting changes more than the
  state of the setting. It writes the new state to the durable store, where the flag
  of the channel goes from false to true.
\<close>

theorem action_store_write_counterexample:
  "dict_get (settings ex_init_view) ''fixtweet'' = Some (FixTweetSetting False ex_channel) \<and>
   store ex_world (3, 5) = False \<and>
   store (snd (snd (action ex_env ''fixtweet'' ex_click (ex_init_view, ex_world)))) (3, 5) = True \<and>
   StoreUpdate 3 5 True
     \<in> set (effects (snd (snd (action ex_env ''fixtweet'' ex_click (ex_init_view, ex_world)))))"
  by code_simp

subsection \<open>The views that a run reaches\<close>

text \<open>The settings of a new view are stored under their ids, with distinct keys, and no
  operation changes that: the hypotheses of the properties of \<open>build\<close>, \<open>_build_items\<close>
  and \<open>select_parameter\<close> hold in every state of a run.\<close>

lemma init_settings:
  "SettingsView_init w i c = Inr v \<Longrightarrow>
     settings v = [(''fixtweet'', FixTweetSetting_init w (interaction_channel i))]"
  by (auto simp: SettingsView_init_def dict_from_settings_def FixTweetSetting_init_def
        setting_id_def split: sum.splits)

lemma init_returns: "\<exists>v. SettingsView_init w i c = Inr v"
  by (simp add: SettingsView_init_def dict_from_settings_def)

lemma action_mutate_id: "setting_id (fst (action_mutate s w)) = setting_id s"
  by (cases s) (simp_all add: setting_id_def)

lemma select_parameter_settings:
  "settings (fst (snd (select_parameter e i vals (v, w)))) = settings v"
proof (cases vals)
  case Nil
  then show ?thesis by (simp add: select_parameter_def)
next
  case (Cons k ks)
  have "settings (fst (snd (refresh e i (v\<lparr>selected_id := Some k\<rparr>, w)))) =
        settings (v\<lparr>selected_id := Some k\<rparr>)"
    using refresh_view_fields by blast
  with Cons show ?thesis by (simp add: select_parameter_def)
qed

lemma action_settings:
  "settings (fst (snd (action e k i (v, w)))) =
     (case dict_get (settings v) k of
        None \<Rightarrow> settings v
      | Some s \<Rightarrow> dict_set (settings v) k (fst (action_mutate s w)))"
proof (cases "dict_get (settings v) k")
  case None
  then show ?thesis by (simp add: action_absent)
next
  case (Some s)
  let ?v = "v\<lparr>settings := dict_set (settings v) k (fst (action_mutate s w))\<rparr>"
  have "settings (fst (snd (refresh e i (?v, snd (action_mutate s w))))) = settings ?v"
    using refresh_view_fields by blast
  with Some show ?thesis by (simp add: action_unfold)
qed

lemma step_wf:
  assumes "key_is_id (settings v)" and "distinct (dict_keys (settings v))"
  shows "key_is_id (settings (fst (do_step e x (v, w)))) \<and>
         distinct (dict_keys (settings (fst (do_step e x (v, w)))))"
proof (cases x)
  case (Refresh i)
  have "settings (fst (snd (refresh e i (v, w)))) = settings v" using refresh_view_fields by blast
  with Refresh assms show ?thesis by simp
next
  case (SelectValues i vals)
  with assms show ?thesis by (simp add: select_parameter_settings)
next
  case (Click k i)
  show ?thesis
  proof (cases "dict_get (settings v) k")
    case None
    with Click assms show ?thesis by (simp add: action_settings)
  next
    case (Some s)
    from assms(1) Some have "setting_id s = k" by (rule key_is_id_get)
    then have "setting_id (fst (action_mutate s w)) = k" by (simp add: action_mutate_id)
    with assms(1) have "key_is_id (dict_set (settings v) k (fst (action_mutate s w)))"
      by (rule key_is_id_dict_set)
    moreover have "distinct (dict_keys (dict_set (settings v) k (fst (action_mutate s w))))"
      using assms(2) by (rule distinct_dict_set)
    ultimately show ?thesis using Click Some by (simp add: action_settings)
  qed
next
  case (TaskRuns h d)
  with assms show ?thesis by simp
qed

lemma run_wf:
  "key_is_id (settings v) \<Longrightarrow> distinct (dict_keys (settings v)) \<Longrightarrow>
     key_is_id (settings (fst (run e xs (v, w)))) \<and>
     distinct (dict_keys (settings (fst (run e xs (v, w)))))"
proof (induction xs arbitrary: v w)
  case Nil
  then show ?case by simp
next
  case (Cons x xs)
  from step_wf[OF Cons.prems, of e x w]
  have a: "key_is_id (settings (fst (do_step e x (v, w))))"
    and b: "distinct (dict_keys (settings (fst (do_step e x (v, w)))))" by simp_all
  from Cons.IH[OF a b, of "snd (do_step e x (v, w))"] show ?case by simp
qed

lemma reachable_wf:
  assumes "SettingsView_init w0 i0 c0 = Inr v0"
  shows "key_is_id (settings (fst (run e xs (v0, w0)))) \<and>
         distinct (dict_keys (settings (fst (run e xs (v0, w0)))))"
proof -
  have s: "settings v0 = [(''fixtweet'', FixTweetSetting_init w0 (interaction_channel i0))]"
    using assms by (rule init_settings)
  have "key_is_id (settings v0)"
    unfolding s by (simp add: key_is_id_def FixTweetSetting_init_def setting_id_def)
  moreover have "distinct (dict_keys (settings v0))" unfolding s by (simp add: dict_keys_def)
  ultimately show ?thesis by (rule run_wf)
qed

subsection \<open>Exceptions of the cleanup task\<close>

lemma caught_iff:
  "caught x \<longleftrightarrow>
     ''discord.HTTPException'' \<in> set (mro x) \<or> ''asyncio.CancelledError'' \<in> set (mro x)"
  by (simp add: caught_def isinstance_HTTPException_def isinstance_CancelledError_def
      isinstance_def)

lemma caught_classes:
  "caught HTTPException \<and> caught NotFound \<and> caught Forbidden \<and> caught DiscordServerError \<and>
   caught CancelledError \<and> \<not> caught (KeyError k) \<and> \<not> caught IndexError \<and>
   \<not> caught (TypeError m) \<and> \<not> caught NotImplementedError"
  by (simp add: caught_iff)

lemma eq_dunder_TypeError:
  "eq_dunder a b =
     Inl (TypeError (''Cannot compare '' @ class_name a @ '' with '' @ class_name b))"
  by (simp add: eq_dunder_def BaseSetting_eq_bindings_def)

lemma message_delete_after_deletes:
  "message_delete_after i None None w =
     (None, w\<lparr>effects := effects w @ [DeleteOriginalResponse (interaction_id i)]\<rparr>)"
  by (simp add: message_delete_after_def delete_body_def)

lemma message_delete_after_sleep:
  "message_delete_after i (Some x) d w = (if caught x then (None, w) else (Some x, w))"
  by (simp add: message_delete_after_def delete_body_def)

lemma message_delete_after_delete:
  "message_delete_after i None (Some x) w = (if caught x then (None, w) else (Some x, w))"
  by (simp add: message_delete_after_def delete_body_def)

lemma refresh_KeyError:
  "selected_id v = Some k \<Longrightarrow> dict_get (settings v) k = None \<Longrightarrow>
     fst (refresh e i (v, w)) = Some (KeyError k)"
  by (simp add: refresh_raises [OF build_KeyError])

text \<open>
  Claim C2, as amended. \<open>_message_delete_after\<close> catches exactly the exceptions that are
  instances of \<open>HTTPException\<close> (the class or any subclass of it) or of \<open>CancelledError\<close>,
  raised by the sleep or by the delete: it then returns normally and leaves the world
  as it was; without an exception it deletes the original response; an exception of
  any other class leaves the task. It is the only place where the program catches an
  exception: a \<open>KeyError\<close> of the rebuild leaves \<open>build\<close>, \<open>refresh\<close>, \<open>select_parameter\<close>
  and \<open>action\<close>, an empty selection raises \<open>IndexError\<close>, and \<open>__eq__\<close> raises
  \<open>TypeError\<close>; none of these classes is one the clause catches.
\<close>

theorem cleanup_catches_two_classes:
  "(caught x \<longleftrightarrow>
      ''discord.HTTPException'' \<in> set (mro x) \<or> ''asyncio.CancelledError'' \<in> set (mro x)) \<and>
   (caught HTTPException \<and> caught NotFound \<and> caught Forbidden \<and> caught DiscordServerError \<and>
    caught CancelledError \<and> \<not> caught (KeyError k') \<and> \<not> caught IndexError \<and>
    \<not> caught (TypeError m) \<and> \<not> caught NotImplementedError) \<and>
   message_delete_after i None None w =
     (None, w\<lparr>effects := effects w @ [DeleteOriginalResponse (interaction_id i)]\<rparr>) \<and>
   (caught x \<longrightarrow>
      message_delete_after i (Some x) d w = (None, w) \<and>
      message_delete_after i None (Some x) w = (None, w)) \<and>
   (\<not> caught x \<longrightarrow>
      message_delete_after i (Some x) d w = (Some x, w) \<and>
      message_delete_after i None (Some x) w = (Some x, w)) \<and>
   (\<forall>y. fst (build_items e v) = Some y \<longrightarrow> fst (build e v) = Some y) \<and>
   (\<forall>y. fst (build e v) = Some y \<longrightarrow> fst (refresh e j (v, w)) = Some y) \<and>
   (selected_id v = Some k \<and> dict_get (settings v) k = None \<longrightarrow>
      fst (refresh e j (v, w)) = Some (KeyError k)) \<and>
   select_parameter e j [] (v, w) = (Some IndexError, v, w) \<and>
   select_parameter e j (k # ks) (v, w) = refresh e j (v\<lparr>selected_id := Some k\<rparr>, w) \<and>
   (\<forall>s. dict_get (settings v) k = Some s \<longrightarrow>
      action e k j (v, w) =
        refresh e j (v\<lparr>settings := dict_set (settings v) k (fst (action_mutate s w))\<rparr>,
                     snd (action_mutate s w))) \<and>
   eq_dunder a b =
     Inl (TypeError (''Cannot compare '' @ class_name a @ '' with '' @ class_name b))"
proof -
  have c1: "caught x \<longleftrightarrow>
      ''discord.HTTPException'' \<in> set (mro x) \<or> ''asyncio.CancelledError'' \<in> set (mro x)"
    by (rule caught_iff)
  have c1': "caught HTTPException \<and> caught NotFound \<and> caught Forbidden \<and>
    caught DiscordServerError \<and>
    caught CancelledError \<and> \<not> caught (KeyError k') \<and> \<not> caught IndexError \<and>
    \<not> caught (TypeError m) \<and> \<not> caught NotImplementedError"
    by (rule caught_classes)
  have c2: "message_delete_after i None None w =
     (None, w\<lparr>effects := effects w @ [DeleteOriginalResponse (interaction_id i)]\<rparr>)"
    by (rule message_delete_after_deletes)
  have c3: "caught x \<longrightarrow>
      message_delete_after i (Some x) d w = (None, w) \<and>
      message_delete_after i None (Some x) w = (None, w)"
    by (simp add: message_delete_after_sleep message_delete_after_delete)
  have c4: "\<not> caught x \<longrightarrow>
      message_delete_after i (Some x) d w = (Some x, w) \<and>
      message_delete_after i None (Some x) w = (Some x, w)"
    by (simp add: message_delete_after_sleep message_delete_after_delete)
  have c5: "\<forall>y. fst (build_items e v) = Some y \<longrightarrow> fst (build e v) = Some y"
    using build_items_propagates by blast
  have c6: "\<forall>y. fst (build e v) = Some y \<longrightarrow> fst (refresh e j (v, w)) = Some y"
    using build_propagates by blast
  have c7: "selected_id v = Some k \<and> dict_get (settings v) k = None \<longrightarrow>
      fst (refresh e j (v, w)) = Some (KeyError k)"
    using refresh_KeyError by blast
  have c8: "select_parameter e j [] (v, w) = (Some IndexError, v, w)"
    by (simp add: select_parameter_def)
  have c9: "select_parameter e j (k # ks) (v, w) = refresh e j (v\<lparr>selected_id := Some k\<rparr>, w)"
    by (simp add: select_parameter_def)
  have c10: "\<forall>s. dict_get (settings v) k = Some s \<longrightarrow>
      action e k j (v, w) =
        refresh e j (v\<lparr>settings := dict_set (settings v) k (fst (action_mutate s w))\<rparr>,
                     snd (action_mutate s w))"
    using action_unfold by blast
  have c11: "eq_dunder a b =
     Inl (TypeError (''Cannot compare '' @ class_name a @ '' with '' @ class_name b))"
    by (rule eq_dunder_TypeError)
  show ?thesis by (intro conjI c1 c1' c2 c3 c4 c5 c6 c7 c8 c9 c10 c11)
qed

theorem cleanup_catches_two_classes_witness:
  "caught DiscordServerError \<and> caught ex_http_subclass \<and> \<not> caught ex_os_error \<and>
   message_delete_after ex_click None (Some NotFound) ex_world = (None, ex_world) \<and>
   message_delete_after ex_click None (Some DiscordServerError) ex_world = (None, ex_world) \<and>
   message_delete_after ex_click None (Some ex_http_subclass) ex_world = (None, ex_world) \<and>
   message_delete_after ex_click (Some CancelledError) None ex_world = (None, ex_world) \<and>
   fst (refresh ex_env ex_click (ex_init_view\<lparr>selected_id := Some ''clicker''\<rparr>, ex_world)) =
     Some (KeyError ''clicker'')"
proof -
  note th = cleanup_catches_two_classes
  have h: "caught ex_http_subclass"
    using th [of ex_http_subclass, THEN conjunct1] by (simp add: ex_http_subclass_def)
  have o: "\<not> caught ex_os_error"
    using th [of ex_os_error, THEN conjunct1] by (simp add: ex_os_error_def)
  note cl = th [of NotFound, THEN conjunct2, THEN conjunct1]
  have nf: "caught NotFound" by (rule cl [THEN conjunct2, THEN conjunct1])
  have se: "caught DiscordServerError"
    by (rule cl [THEN conjunct2, THEN conjunct2, THEN conjunct2, THEN conjunct1])
  have ce: "caught CancelledError"
    by (rule cl [THEN conjunct2, THEN conjunct2, THEN conjunct2, THEN conjunct2, THEN conjunct1])
  note sw = th [THEN conjunct2, THEN conjunct2, THEN conjunct2, THEN conjunct1, THEN mp]
  have m1: "message_delete_after ex_click None (Some NotFound) ex_world = (None, ex_world)"
    by (rule sw [OF nf, THEN conjunct2])
  have m2: "message_delete_after ex_click None (Some DiscordServerError) ex_world = (None, ex_world)"
    by (rule sw [OF se, THEN conjunct2])
  have m3: "message_delete_after ex_click None (Some ex_http_subclass) ex_world = (None, ex_world)"
    by (rule sw [OF h, THEN conjunct2])
  have m4: "message_delete_after ex_click (Some CancelledError) None ex_world = (None, ex_world)"
    by (rule sw [OF ce, THEN conjunct1])
  have s: "selected_id (ex_init_view\<lparr>selected_id := Some ''clicker''\<rparr>) = Some ''clicker'' \<and>
           dict_get (settings (ex_init_view\<lparr>selected_id := Some ''clicker''\<rparr>)) ''clicker'' = None"
    by (simp add: dict_get_def ex_init_view_def)
  have r: "fst (refresh ex_env ex_click (ex_init_view\<lparr>selected_id := Some ''clicker''\<rparr>, ex_world)) =
     Some (KeyError ''clicker'')"
    by (rule th [THEN conjunct2, THEN conjunct2, THEN conjunct2, THEN conjunct2, THEN conjunct2,
                 THEN conjunct2, THEN conjunct2, THEN conjunct1, THEN mp, OF s])
  show ?thesis by (intro conjI se h o m1 m2 m3 m4 r)
qed

text \<open>
  Claim C2 as stated fails: an exception of another class raised by the delete
  (here an \<open>OSError\<close> of the connection) leaves the task, and the program has other
  error paths, such as the \<open>TypeError\<close> that \<open>__eq__\<close> raises.
\<close>

theorem cleanup_only_error_path_counterexample:
  "message_delete_after ex_click None (Some ex_os_error) ex_world = (Some ex_os_error, ex_world) \<and>
   eq_dunder (PySetting (ClickerSetting 0)) (PyStr ''clicker'') =
     Inl (TypeError ''Cannot compare ClickerSetting with str'')"
  by (simp add: message_delete_after_def delete_body_def caught_iff ex_os_error_def
      eq_dunder_def BaseSetting_eq_bindings_def)

end
